theory Spec2Isabelle
  imports Complex_Main "HOL-Library.Log_Nat"
begin

section \<open>The zoom compositor of the video preview\<close>

text \<open>
  A shallow embedding of the per-frame zoom computation of
  \<^verbatim>\<open>src/components/video-preview.tsx\<close> and of the effect descriptor of
  \<^verbatim>\<open>src/lib/types.ts\<close>.

  Numbers. A TypeScript \<^verbatim>\<open>number\<close> is an IEEE 754 double. The lookup, the resolver and
  the tick are modelled over the reals: a number is a \<^typ>\<open>real\<close> and arithmetic is exact
  there, so that rounding, overflow and the values NaN and the infinities are not part of
  that model. The one operation of the code that leaves the reals on real arguments is
  the division by a zero \<^verbatim>\<open>duration\<close>; it is modelled by \<open>divide_number\<close>, which has no
  value there. The arithmetic of the smoother is modelled a second time as the code
  computes it, every operation rounded to the nearest double: \<open>interpolateZoomState64\<close>.
\<close>

subsection \<open>Data model\<close>

text \<open>
  \<^verbatim>\<open>zoomStyle?: "in-only" | "out-only" | "in-out"\<close>: the three string literals are the
  constructors of a datatype, the optional field is an \<^typ>\<open>'a option\<close>.
\<close>

datatype ZoomStyle = InOnly | OutOnly | InOut

record ZoomEffect =
  id' :: string
  startTime :: real
  duration :: real
  level :: real
  centerX :: real
  centerY :: real
  zoomStyle :: "ZoomStyle option"

text \<open>
  The object \<^verbatim>\<open>{zoom, centerX, centerY}\<close> kept in \<^verbatim>\<open>prevZoomStateRef\<close>, and the object
  \<^verbatim>\<open>{zoom, centerX, centerY, isActive}\<close> that \<^verbatim>\<open>calculateZoomParameters\<close> returns. The
  second extends the first, as TypeScript's structural typing has it; \<open>ZoomState.truncate\<close>
  is the coercion from the wider to the narrower type.
\<close>

record ZoomState =
  zoom :: real
  centerX :: real
  centerY :: real

record ZoomParameters = ZoomState +
  isActive :: bool

subsection \<open>Easing\<close>

text \<open>
  \<^verbatim>\<open>const easeInOutCubic = (t: number) =>
    t < 0.5 ? 4 * t * t * t : 1 - Math.pow(-2 * t + 2, 3) / 2\<close>
\<close>

definition easeInOutCubic :: "real \<Rightarrow> real" where
  "easeInOutCubic t = (if t < 0.5 then 4 * t * t * t else 1 - (- 2 * t + 2) ^ 3 / 2)"

subsection \<open>Effect lookup\<close>

text \<open>
  \<^verbatim>\<open>const activeEffect = zoomEffects.find(
    (effect) => time >= effect.startTime && time <= effect.startTime + effect.duration)\<close>

  \<^verbatim>\<open>Array.prototype.find\<close> returns the first element, in index order, for which the
  callback holds, and \<^verbatim>\<open>undefined\<close> when there is none: \<^const>\<open>List.find\<close>.
\<close>

definition activeEffect :: "ZoomEffect list \<Rightarrow> real \<Rightarrow> ZoomEffect option" where
  "activeEffect zoomEffects time =
     List.find (\<lambda>effect. time \<ge> startTime effect \<and> time \<le> startTime effect + duration effect)
       zoomEffects"

subsection \<open>Zoom parameters at a time\<close>

text \<open>
  The quotient of two numbers. For a divisor 0 JavaScript yields NaN or an infinity,
  which is no real number: the model has no value there.
\<close>

definition divide_number :: "real \<Rightarrow> real \<Rightarrow> real option" where
  "divide_number a b = (if b = 0 then None else Some (a / b))"

text \<open>
  \<^verbatim>\<open>calculateZoomParameters(time)\<close>; the collection \<^verbatim>\<open>zoomEffects\<close> is a variable of the
  enclosing component and is an argument here. The result is \<open>None\<close> exactly when the
  progress is not a real number. \<^verbatim>\<open>activeEffect.zoomStyle || 'in-out'\<close> is the default of
  the absent style. The \<^verbatim>\<open>if\<close>/\<^verbatim>\<open>else if\<close> chain over the style has one branch for each
  of the three literals of the type.
\<close>

definition calculateZoomParameters :: "ZoomEffect list \<Rightarrow> real \<Rightarrow> ZoomParameters option" where
  "calculateZoomParameters zoomEffects time =
     (case activeEffect zoomEffects time of
        None \<Rightarrow> Some \<lparr>zoom = 1, centerX = 0.5, centerY = 0.5, isActive = False\<rparr>
      | Some effect \<Rightarrow>
          (case divide_number (time - startTime effect) (duration effect) of
             None \<Rightarrow> None
           | Some progress \<Rightarrow>
               (let style = (case zoomStyle effect of None \<Rightarrow> InOut | Some s \<Rightarrow> s);
                    zoomProgress =
                      (case style of
                         InOut \<Rightarrow>
                           if progress < 0.5 then easeInOutCubic (progress * 2)
                           else easeInOutCubic ((1 - progress) * 2)
                       | InOnly \<Rightarrow> easeInOutCubic progress
                       | OutOnly \<Rightarrow> easeInOutCubic (1 - progress));
                    zoom = 1 + (level effect - 1) * zoomProgress
                in Some \<lparr>zoom = zoom,
                         centerX = ZoomEffect.centerX effect,
                         centerY = ZoomEffect.centerY effect,
                         isActive = True\<rparr>)))"

subsection \<open>Interpolation between frames\<close>

text \<open>
  \<^verbatim>\<open>interpolateZoomState(current, previous, factor = 0.3)\<close>: \<^verbatim>\<open>previous\<close> may be
  \<^verbatim>\<open>null\<close>, and an omitted \<^verbatim>\<open>factor\<close> is 0.3.
  This is the function over the reals, as the tick below calls it; what the code returns
  on doubles is \<open>interpolateZoomState64\<close>.
\<close>

definition interpolateZoomState :: "ZoomState \<Rightarrow> ZoomState option \<Rightarrow> real option \<Rightarrow> ZoomState" where
  "interpolateZoomState current previous factor =
     (let factor = (case factor of None \<Rightarrow> 0.3 | Some f \<Rightarrow> f)
      in case previous of
           None \<Rightarrow> current
         | Some previous \<Rightarrow>
             \<lparr>zoom = zoom previous + (zoom current - zoom previous) * factor,
              centerX = centerX previous + (centerX current - centerX previous) * factor,
              centerY = centerY previous + (centerY current - centerY previous) * factor\<rparr>)"

subsection \<open>Double-precision arithmetic\<close>

text \<open>
  The numbers of the code are IEEE 754 binary64 values, and \<^verbatim>\<open>+\<close>, \<^verbatim>\<open>-\<close> and \<^verbatim>\<open>*\<close> return
  the exact result rounded to the nearest such value, a tie going to the value with the
  even significand. A finite double is here the real number it stands for (the two zeros
  are one number), and it is an integer multiple of \<open>1 / 2 ^ 1074\<close> whose multiplier has
  at most 53 significant bits.

  \<open>roundHalfEven\<close> rounds a real to the nearest integer, a tie to the even one. \<open>round53\<close>
  rounds a non-negative real to the nearest integer of at most 53 significant bits: it
  drops the bits below the leading 53, if there are any. \<open>round64\<close> rounds a real to the
  nearest double, with no bound on the exponent from above; \<open>finite64\<close> is the result of
  an operation with that exact value, \<open>None\<close> when the rounded value is not below
  \<open>2 ^ 1024\<close> in magnitude, where the code has an infinity (or, later, NaN).
\<close>

definition roundHalfEven :: "real \<Rightarrow> int" where
  "roundHalfEven q =
     (let n = \<lfloor>q\<rfloor>; r = q - of_int n
      in if r < 1/2 then n else if 1/2 < r then n + 1 else if even n then n else n + 1)"

definition round53 :: "real \<Rightarrow> int" where
  "round53 y = (let j = nat (bitlen \<lfloor>y\<rfloor> - 53) in roundHalfEven (y / 2 ^ j) * 2 ^ j)"

definition roundMagnitude :: "real \<Rightarrow> real" where
  "roundMagnitude x = of_int (round53 (x * 2 ^ 1074)) / 2 ^ 1074"

definition round64 :: "real \<Rightarrow> real" where
  "round64 x = (if x < 0 then - roundMagnitude (- x) else roundMagnitude x)"

definition finite64 :: "real \<Rightarrow> real option" where
  "finite64 x = (let r = round64 x in if \<bar>r\<bar> < 2 ^ 1024 then Some r else None)"

definition isDouble :: "real \<Rightarrow> bool" where
  "isDouble x \<longleftrightarrow> finite64 x = Some x"

text \<open>
  \<^verbatim>\<open>previous.f + (current.f - previous.f) * factor\<close>, the expression
  \<^verbatim>\<open>interpolateZoomState\<close> evaluates for each of its three fields, with its three
  operations in the order of evaluation.
\<close>

definition blend64 :: "real \<Rightarrow> real \<Rightarrow> real \<Rightarrow> real option" where
  "blend64 previous current factor =
     (case finite64 (current - previous) of
        None \<Rightarrow> None
      | Some difference \<Rightarrow>
          (case finite64 (difference * factor) of
             None \<Rightarrow> None
           | Some step \<Rightarrow> finite64 (previous + step)))"

text \<open>
  \<^verbatim>\<open>interpolateZoomState\<close> as the code computes it on doubles. The literal \<^verbatim>\<open>0.3\<close> of the
  default is the double nearest to 0.3. The result is \<open>None\<close> when a field of the object
  the code returns is not a finite number.
\<close>

definition interpolateZoomState64 ::
  "ZoomState \<Rightarrow> ZoomState option \<Rightarrow> real option \<Rightarrow> ZoomState option" where
  "interpolateZoomState64 current previous factor =
     (let factor = (case factor of None \<Rightarrow> round64 0.3 | Some f \<Rightarrow> f)
      in case previous of
           None \<Rightarrow> Some current
         | Some previous \<Rightarrow>
             (case (blend64 (zoom previous) (zoom current) factor,
                    blend64 (centerX previous) (centerX current) factor,
                    blend64 (centerY previous) (centerY current) factor) of
                (Some z, Some x, Some y) \<Rightarrow> Some \<lparr>zoom = z, centerX = x, centerY = y\<rparr>
              | _ \<Rightarrow> None))"

definition doubleState :: "ZoomState \<Rightarrow> bool" where
  "doubleState s \<longleftrightarrow> isDouble (zoom s) \<and> isDouble (centerX s) \<and> isDouble (centerY s)"

subsection \<open>The drawing surface\<close>

text \<open>
  The tick reads \<^verbatim>\<open>video.currentTime\<close>, \<^verbatim>\<open>canvas.width\<close> and \<^verbatim>\<open>canvas.height\<close>, and
  calls methods of the canvas's 2D context. These objects belong to the browser; what
  follows is the part of their behaviour the tick depends on, after the HTML standard:
  the context has a current transformation matrix and a stack of saved drawing states,
  \<^verbatim>\<open>translate\<close> and \<^verbatim>\<open>scale\<close> multiply the matrix from the right, \<^verbatim>\<open>save\<close> and \<^verbatim>\<open>restore\<close>
  push and pop the drawing state, and \<^verbatim>\<open>clearRect\<close> and \<^verbatim>\<open>drawImage\<close> act on the bitmap
  through the matrix current at the call. The bitmap is kept as the list of these
  actions, oldest first.
\<close>

record HTMLVideoElement =
  currentTime :: real

record HTMLCanvasElement =
  width :: real
  height :: real

text \<open>
  \<open>Matrix a b c d e f\<close> maps the point \<open>(x, y)\<close> to \<open>(a x + c y + e, b x + d y + f)\<close>.
\<close>

datatype DOMMatrix = Matrix real real real real real real

fun transformPoint :: "DOMMatrix \<Rightarrow> real \<times> real \<Rightarrow> real \<times> real" where
  "transformPoint (Matrix a b c d e f) (x, y) = (a * x + c * y + e, b * x + d * y + f)"

fun multiply :: "DOMMatrix \<Rightarrow> DOMMatrix \<Rightarrow> DOMMatrix" where
  "multiply (Matrix a b c d e f) (Matrix a' b' c' d' e' f') =
     Matrix (a * a' + c * b') (b * a' + d * b')
            (a * c' + c * d') (b * c' + d * d')
            (a * e' + c * f' + e) (b * e' + d * f' + f)"

definition identity :: DOMMatrix where
  "identity = Matrix 1 0 0 1 0 0"

definition translation :: "real \<Rightarrow> real \<Rightarrow> DOMMatrix" where
  "translation tx ty = Matrix 1 0 0 1 tx ty"

definition scaling :: "real \<Rightarrow> real \<Rightarrow> DOMMatrix" where
  "scaling sx sy = Matrix sx 0 0 sy 0 0"

datatype Paint =
    Cleared DOMMatrix real real real real
  | Drawn DOMMatrix HTMLVideoElement real real real real

record DrawingState =
  transform :: DOMMatrix
  imageSmoothingEnabled :: bool
  imageSmoothingQuality :: string

record CanvasRenderingContext2D = DrawingState +
  stack :: "DrawingState list"
  bitmap :: "Paint list"

definition clearRect ::
  "real \<Rightarrow> real \<Rightarrow> real \<Rightarrow> real \<Rightarrow> CanvasRenderingContext2D \<Rightarrow> CanvasRenderingContext2D" where
  "clearRect x y w h ctx = ctx\<lparr>bitmap := bitmap ctx @ [Cleared (transform ctx) x y w h]\<rparr>"

definition drawImage ::
  "HTMLVideoElement \<Rightarrow> real \<Rightarrow> real \<Rightarrow> real \<Rightarrow> real \<Rightarrow>
     CanvasRenderingContext2D \<Rightarrow> CanvasRenderingContext2D" where
  "drawImage img dx dy dw dh ctx =
     ctx\<lparr>bitmap := bitmap ctx @ [Drawn (transform ctx) img dx dy dw dh]\<rparr>"

definition save :: "CanvasRenderingContext2D \<Rightarrow> CanvasRenderingContext2D" where
  "save ctx = ctx\<lparr>stack := DrawingState.truncate ctx # stack ctx\<rparr>"

definition restore :: "CanvasRenderingContext2D \<Rightarrow> CanvasRenderingContext2D" where
  "restore ctx =
     (case stack ctx of
        [] \<Rightarrow> ctx
      | s # rest \<Rightarrow>
          ctx\<lparr>transform := transform s,
              imageSmoothingEnabled := imageSmoothingEnabled s,
              imageSmoothingQuality := imageSmoothingQuality s,
              stack := rest\<rparr>)"

definition translate :: "real \<Rightarrow> real \<Rightarrow> CanvasRenderingContext2D \<Rightarrow> CanvasRenderingContext2D" where
  "translate x y ctx = ctx\<lparr>transform := multiply (transform ctx) (translation x y)\<rparr>"

definition scale :: "real \<Rightarrow> real \<Rightarrow> CanvasRenderingContext2D \<Rightarrow> CanvasRenderingContext2D" where
  "scale x y ctx = ctx\<lparr>transform := multiply (transform ctx) (scaling x y)\<rparr>"

subsection \<open>One tick of the render loop\<close>

text \<open>
  The references the tick reads and writes through \<^verbatim>\<open>.current\<close>. A reference that is
  \<^verbatim>\<open>null\<close> is \<open>None\<close>. Between two ticks the browser advances \<^verbatim>\<open>video.currentTime\<close>.
  The frame scheduler is the host's: \<^verbatim>\<open>requestAnimationFrame(renderFrame)\<close>, the last
  statement of both paths of the tick, and \<^verbatim>\<open>animationRef\<close> are not modelled;
  \<open>renderFrame\<close> is the body of one tick.
\<close>

record Refs =
  videoRef :: "HTMLVideoElement option"
  canvasRef :: "HTMLCanvasElement option"
  contextRef :: "CanvasRenderingContext2D option"
  lastTimeRef :: real
  lastVideoTimeRef :: real
  frameCountRef :: nat
  prevZoomStateRef :: "ZoomState option"

text \<open>
  \<^verbatim>\<open>renderFrame(timestamp)\<close>. The result is \<open>None\<close> when the zoom parameters are not
  numbers of the model (see \<open>calculateZoomParameters\<close>). When the video, the canvas or
  the context is missing the tick changes nothing.
\<close>

definition renderFrame :: "ZoomEffect list \<Rightarrow> real \<Rightarrow> Refs \<Rightarrow> Refs option" where
  "renderFrame zoomEffects timestamp refs =
     (case (videoRef refs, canvasRef refs, contextRef refs) of
        (Some video, Some canvas, Some ctx) \<Rightarrow>
          (let timeDelta = timestamp - lastTimeRef refs;
               refs = refs\<lparr>lastTimeRef := timestamp\<rparr>;
               videoTimeDelta = currentTime video - lastVideoTimeRef refs;
               refs = refs\<lparr>lastVideoTimeRef := currentTime video\<rparr>
           in case calculateZoomParameters zoomEffects (currentTime video) of
                None \<Rightarrow> None
              | Some currentParams \<Rightarrow>
                  (let interpolationFactor = (if \<bar>videoTimeDelta\<bar> > 0.1 then 0.8 else 0.3);
                       smoothedParams =
                         interpolateZoomState (ZoomState.truncate currentParams)
                           (prevZoomStateRef refs) (Some interpolationFactor);
                       refs = refs\<lparr>prevZoomStateRef := Some smoothedParams\<rparr>;
                       ctx = clearRect 0 0 (width canvas) (height canvas) ctx;
                       ctx =
                         (if isActive currentParams then
                            (let centerX = centerX smoothedParams * width canvas;
                                 centerY = centerY smoothedParams * height canvas;
                                 zoomLevel = zoom smoothedParams;
                                 ctx = save ctx;
                                 ctx = translate centerX centerY ctx;
                                 ctx = scale zoomLevel zoomLevel ctx;
                                 ctx = translate (- centerX) (- centerY) ctx;
                                 ctx = ctx\<lparr>imageSmoothingEnabled := True\<rparr>;
                                 ctx = ctx\<lparr>imageSmoothingQuality := ''high''\<rparr>;
                                 ctx = drawImage video 0 0 (width canvas) (height canvas) ctx
                             in restore ctx)
                          else drawImage video 0 0 (width canvas) (height canvas) ctx);
                       refs = refs\<lparr>frameCountRef := frameCountRef refs + 1\<rparr>
                   in Some (refs\<lparr>contextRef := Some ctx\<rparr>)))
      | _ \<Rightarrow> Some refs)"

subsection \<open>Example inputs\<close>

text \<open>
  Effects, a surface and reference cells on which the theorems below are instantiated.
  \<open>effectInOut\<close> is the effect of the end-to-end scenario A of the specification;
  \<open>effectDefault\<close> overlaps it from time 4 to time 6 and has no style.
\<close>

definition effectInOut :: ZoomEffect where
  "effectInOut = \<lparr>id' = ''a'', startTime = 2, duration = 4, level = 2,
                   centerX = 0.5, centerY = 0.5, zoomStyle = Some InOut\<rparr>"

definition effectDefault :: ZoomEffect where
  "effectDefault = \<lparr>id' = ''b'', startTime = 4, duration = 4, level = 3,
                     centerX = 0.25, centerY = 0.75, zoomStyle = None\<rparr>"

definition effectInOnly :: ZoomEffect where
  "effectInOnly = \<lparr>id' = ''c'', startTime = 4, duration = 4, level = 3,
                    centerX = 0.25, centerY = 0.75, zoomStyle = Some InOnly\<rparr>"

definition effectOutOnly :: ZoomEffect where
  "effectOutOnly = \<lparr>id' = ''d'', startTime = 4, duration = 4, level = 3,
                     centerX = 0.25, centerY = 0.75, zoomStyle = Some OutOnly\<rparr>"

definition effectInstant :: ZoomEffect where
  "effectInstant = \<lparr>id' = ''e'', startTime = 1, duration = 0, level = 2,
                     centerX = 0.5, centerY = 0.5, zoomStyle = Some InOut\<rparr>"

definition freshContext :: CanvasRenderingContext2D where
  "freshContext = \<lparr>transform = identity, imageSmoothingEnabled = True,
                    imageSmoothingQuality = ''low'', stack = [], bitmap = []\<rparr>"

text \<open>
  The cells before a tick at video time 3 that follows a tick at video time 2.5 (a seek),
  and before a tick at video time 3.01 that follows the tick at 3 (playback).
\<close>

definition refsAfterSeek :: Refs where
  "refsAfterSeek = \<lparr>videoRef = Some \<lparr>currentTime = 3\<rparr>,
                     canvasRef = Some \<lparr>width = 640, height = 360\<rparr>,
                     contextRef = Some freshContext,
                     lastTimeRef = 0, lastVideoTimeRef = 2.5, frameCountRef = 0,
                     prevZoomStateRef = Some \<lparr>zoom = 1, centerX = 0.5, centerY = 0.5\<rparr>\<rparr>"

definition refsPlaying :: Refs where
  "refsPlaying = \<lparr>videoRef = Some \<lparr>currentTime = 3.01\<rparr>,
                   canvasRef = Some \<lparr>width = 640, height = 360\<rparr>,
                   contextRef = Some freshContext,
                   lastTimeRef = 16, lastVideoTimeRef = 3, frameCountRef = 1,
                   prevZoomStateRef = Some \<lparr>zoom = 1.4, centerX = 0.5, centerY = 0.5\<rparr>\<rparr>"

text \<open>
  Zoom states whose fields are doubles. The centerX of \<open>previous003\<close> is the double the
  literal \<^verbatim>\<open>0.03\<close> denotes, the centerX of \<open>target03\<close> the double of \<^verbatim>\<open>0.3\<close>.
\<close>

definition previous003 :: ZoomState where
  "previous003 = \<lparr>zoom = 1, centerX = 8646911284551352 / 2 ^ 58, centerY = 1 / 2\<rparr>"

definition target03 :: ZoomState where
  "target03 = \<lparr>zoom = 1, centerX = 5404319552844595 / 2 ^ 54, centerY = 1 / 2\<rparr>"

definition previousHalf :: ZoomState where
  "previousHalf = \<lparr>zoom = 1, centerX = 1 / 2, centerY = 3 / 4\<rparr>"

definition targetQuarter :: ZoomState where
  "targetQuarter = \<lparr>zoom = 2, centerX = 1 / 4, centerY = 3 / 4\<rparr>"

section \<open>Easing\<close>

lemma ease_lower_half: "t < 1/2 \<Longrightarrow> easeInOutCubic t = 4 * t ^ 3"
  by (simp add: easeInOutCubic_def power3_eq_cube)

lemma ease_upper_half: "1/2 \<le> t \<Longrightarrow> easeInOutCubic t = 1 - (2 - 2 * t) ^ 3 / 2"
  by (simp add: easeInOutCubic_def)

lemma ease_0: "easeInOutCubic 0 = 0"
  by (simp add: easeInOutCubic_def)

lemma ease_1: "easeInOutCubic 1 = 1"
  by (simp add: easeInOutCubic_def)

lemma ease_half: "easeInOutCubic (1/2) = 1/2"
  by (simp add: easeInOutCubic_def)

lemma ease_lower_range:
  assumes "0 \<le> t" "t < 1/2"
  shows "0 \<le> easeInOutCubic t" "easeInOutCubic t < 1/2"
proof -
  have e: "easeInOutCubic t = 4 * t ^ 3"
    using assms by (simp add: ease_lower_half)
  show "0 \<le> easeInOutCubic t"
    using assms e by simp
  have "t ^ 3 < (1/2) ^ 3"
    using assms by (intro power_strict_mono) simp_all
  then show "easeInOutCubic t < 1/2"
    using e by (simp add: power3_eq_cube)
qed

lemma ease_upper_range:
  assumes "1/2 \<le> t" "t \<le> 1"
  shows "1/2 \<le> easeInOutCubic t" "easeInOutCubic t \<le> 1"
proof -
  have e: "easeInOutCubic t = 1 - (2 - 2 * t) ^ 3 / 2"
    using assms by (simp add: ease_upper_half)
  have "(2 - 2 * t) ^ 3 \<le> 1 ^ 3"
    using assms by (intro power_mono) simp_all
  then show "1/2 \<le> easeInOutCubic t"
    using e by simp
  have "0 \<le> (2 - 2 * t) ^ 3"
    using assms by simp
  then show "easeInOutCubic t \<le> 1"
    using e by simp
qed

lemma ease_range: "0 \<le> t \<Longrightarrow> t \<le> 1 \<Longrightarrow> 0 \<le> easeInOutCubic t \<and> easeInOutCubic t \<le> 1"
  using ease_lower_range [of t] ease_upper_range [of t] by (cases "t < 1/2") auto

lemma ease_strict_mono:
  assumes "0 \<le> s" "s < t" "t \<le> 1"
  shows "easeInOutCubic s < easeInOutCubic t"
proof (cases "t < 1/2")
  case True
  then have "s ^ 3 < t ^ 3"
    using assms by (intro power_strict_mono) simp_all
  then show ?thesis
    using True assms by (simp add: ease_lower_half)
next
  case upper: False
  show ?thesis
  proof (cases "s < 1/2")
    case True
    then show ?thesis
      using ease_lower_range(2) [of s] ease_upper_range(1) [of t] assms upper by simp
  next
    case False
    have "(2 - 2 * t) ^ 3 < (2 - 2 * s) ^ 3"
      using assms by (intro power_strict_mono) simp_all
    then show ?thesis
      using False upper assms by (simp add: ease_upper_half)
  qed
qed

lemma ease_mono: "0 \<le> s \<Longrightarrow> s \<le> t \<Longrightarrow> t \<le> 1 \<Longrightarrow> easeInOutCubic s \<le> easeInOutCubic t"
  using ease_strict_mono [of s t] by (cases "s = t") auto

text \<open>
  Claim C5. \<open>easeInOutCubic t\<close> is \<open>4 t\<^sup>3\<close> below one half and \<open>1 - (-2 t + 2)\<^sup>3 / 2\<close> from
  one half on; on the interval from 0 to 1 its values lie between 0 and 1; it maps 0 to 0,
  1 to 1 and one half to one half; and it is increasing on that interval (strictly, hence
  also weakly).
\<close>

theorem easeInOutCubic_curve:
  "(t < 0.5 \<longrightarrow> easeInOutCubic t = 4 * t ^ 3)
   \<and> (0.5 \<le> t \<longrightarrow> easeInOutCubic t = 1 - (- 2 * t + 2) ^ 3 / 2)
   \<and> (0 \<le> t \<and> t \<le> 1 \<longrightarrow> 0 \<le> easeInOutCubic t \<and> easeInOutCubic t \<le> 1)
   \<and> easeInOutCubic 0 = 0
   \<and> easeInOutCubic 1 = 1
   \<and> easeInOutCubic 0.5 = 0.5
   \<and> (0 \<le> s \<and> s < t \<and> t \<le> 1 \<longrightarrow> easeInOutCubic s < easeInOutCubic t)
   \<and> (0 \<le> s \<and> s \<le> t \<and> t \<le> 1 \<longrightarrow> easeInOutCubic s \<le> easeInOutCubic t)"
proof (intro conjI impI)
  show "t < 0.5 \<Longrightarrow> easeInOutCubic t = 4 * t ^ 3"
    by (simp add: ease_lower_half)
  show "0.5 \<le> t \<Longrightarrow> easeInOutCubic t = 1 - (- 2 * t + 2) ^ 3 / 2"
    by (simp add: easeInOutCubic_def)
  show "0 \<le> t \<and> t \<le> 1 \<Longrightarrow> 0 \<le> easeInOutCubic t"
    using ease_range [of t] by simp
  show "0 \<le> t \<and> t \<le> 1 \<Longrightarrow> easeInOutCubic t \<le> 1"
    using ease_range [of t] by simp
  show "easeInOutCubic 0 = 0"
    by (rule ease_0)
  show "easeInOutCubic 1 = 1"
    by (rule ease_1)
  show "easeInOutCubic 0.5 = 0.5"
    using ease_half by simp
  show "0 \<le> s \<and> s < t \<and> t \<le> 1 \<Longrightarrow> easeInOutCubic s < easeInOutCubic t"
    using ease_strict_mono [of s t] by simp
  show "0 \<le> s \<and> s \<le> t \<and> t \<le> 1 \<Longrightarrow> easeInOutCubic s \<le> easeInOutCubic t"
    using ease_mono [of s t] by simp
qed

theorem easeInOutCubic_curve_witness:
  "easeInOutCubic (1/4) = 1/16 \<and> easeInOutCubic (3/4) = 15/16
   \<and> 0 \<le> easeInOutCubic (3/4) \<and> easeInOutCubic (3/4) \<le> 1
   \<and> easeInOutCubic (1/4) < easeInOutCubic (3/4)
   \<and> easeInOutCubic (1/4) \<le> easeInOutCubic (3/4)"
proof -
  have lower: "(1/4::real) < 0.5" and upper: "(0.5::real) \<le> 3/4"
    and unit: "(0::real) \<le> 3/4 \<and> (3/4::real) \<le> 1"
    and order: "(0::real) \<le> 1/4 \<and> (1/4::real) < 3/4 \<and> (3/4::real) \<le> 1"
    and order': "(0::real) \<le> 1/4 \<and> (1/4::real) \<le> 3/4 \<and> (3/4::real) \<le> 1"
    by simp_all
  have a: "easeInOutCubic (1/4) = 4 * (1/4) ^ 3"
    using easeInOutCubic_curve [of "1/4" 0] lower by blast
  have b: "easeInOutCubic (3/4) = 1 - (- 2 * (3/4) + 2) ^ 3 / 2"
    using easeInOutCubic_curve [of "3/4" "1/4"] upper by blast
  have c: "0 \<le> easeInOutCubic (3/4) \<and> easeInOutCubic (3/4) \<le> 1"
    using easeInOutCubic_curve [of "3/4" "1/4"] unit by blast
  have d: "easeInOutCubic (1/4) < easeInOutCubic (3/4)"
    using easeInOutCubic_curve [of "3/4" "1/4"] order by blast
  have e: "easeInOutCubic (1/4) \<le> easeInOutCubic (3/4)"
    using easeInOutCubic_curve [of "3/4" "1/4"] order' by blast
  have "easeInOutCubic (1/4) = 1/16"
    using a by (simp add: power3_eq_cube)
  moreover have "easeInOutCubic (3/4) = 15/16"
    using b by (simp add: power3_eq_cube)
  ultimately show ?thesis
    using c d e by blast
qed

section \<open>Effect lookup\<close>

lemma activeEffect_Some_iff:
  "activeEffect es t = Some e \<longleftrightarrow>
     (\<exists>i<length es. es ! i = e \<and> startTime e \<le> t \<and> t \<le> startTime e + duration e \<and>
        (\<forall>j<i. \<not> (startTime (es ! j) \<le> t \<and> t \<le> startTime (es ! j) + duration (es ! j))))"
  unfolding activeEffect_def find_Some_iff by auto

lemma activeEffect_None_iff:
  "activeEffect es t = None \<longleftrightarrow>
     (\<forall>x\<in>set es. \<not> (startTime x \<le> t \<and> t \<le> startTime x + duration x))"
  unfolding activeEffect_def find_None_iff by auto

lemma activeEffect_Nil: "activeEffect [] t = None"
  by (simp add: activeEffect_def)

lemma activeEffect_Cons:
  "activeEffect (x # es) t =
     (if startTime x \<le> t \<and> t \<le> startTime x + duration x then Some x else activeEffect es t)"
  by (simp add: activeEffect_def)

lemma activeEffect_append:
  "\<forall>x\<in>set xs. \<not> (startTime x \<le> t \<and> t \<le> startTime x + duration x) \<Longrightarrow>
   activeEffect (xs @ ys) t = activeEffect ys t"
  by (induction xs) (auto simp: activeEffect_Cons)

lemma activeEffect_covers:
  "activeEffect es t = Some e \<Longrightarrow>
   e \<in> set es \<and> startTime e \<le> t \<and> t \<le> startTime e + duration e"
  unfolding activeEffect_Some_iff by auto

lemma active_duration_nonneg: "activeEffect es t = Some e \<Longrightarrow> 0 \<le> duration e"
  using activeEffect_covers [of es t e] by simp

text \<open>
  Claim C2. The lookup returns an effect exactly when that effect stands at some index of
  the collection, its window \<open>startTime \<le> t \<le> startTime + duration\<close> covers the time, and
  no effect at an earlier index covers the time; it returns none exactly when no effect
  of the collection covers the time, and so for the empty collection. Both ends of the
  window are inclusive: an effect whose duration is not negative, with no covering effect
  before it, is returned at the time \<open>startTime\<close> and at the time \<open>startTime + duration\<close>.
  The lookup is a function of the collection and the time alone; the collection is a
  value, the same after the lookup as before it.
\<close>

theorem activeEffect_first_match:
  "(activeEffect es t = Some e \<longleftrightarrow>
      (\<exists>i<length es. es ! i = e \<and> startTime e \<le> t \<and> t \<le> startTime e + duration e \<and>
         (\<forall>j<i. \<not> (startTime (es ! j) \<le> t \<and> t \<le> startTime (es ! j) + duration (es ! j)))))
   \<and> (activeEffect es t = None \<longleftrightarrow>
        (\<forall>x\<in>set es. \<not> (startTime x \<le> t \<and> t \<le> startTime x + duration x)))
   \<and> activeEffect [] t = None
   \<and> (0 \<le> duration e \<and>
        (\<forall>x\<in>set xs. \<not> (startTime x \<le> startTime e \<and> startTime e \<le> startTime x + duration x))
        \<longrightarrow> activeEffect (xs @ e # ys) (startTime e) = Some e)
   \<and> (0 \<le> duration e \<and>
        (\<forall>x\<in>set xs. \<not> (startTime x \<le> startTime e + duration e \<and>
                          startTime e + duration e \<le> startTime x + duration x))
        \<longrightarrow> activeEffect (xs @ e # ys) (startTime e + duration e) = Some e)"
proof (intro conjI impI)
  show "activeEffect es t = Some e \<longleftrightarrow>
      (\<exists>i<length es. es ! i = e \<and> startTime e \<le> t \<and> t \<le> startTime e + duration e \<and>
         (\<forall>j<i. \<not> (startTime (es ! j) \<le> t \<and> t \<le> startTime (es ! j) + duration (es ! j))))"
    by (rule activeEffect_Some_iff)
  show "activeEffect es t = None \<longleftrightarrow>
        (\<forall>x\<in>set es. \<not> (startTime x \<le> t \<and> t \<le> startTime x + duration x))"
    by (rule activeEffect_None_iff)
  show "activeEffect [] t = None"
    by (rule activeEffect_Nil)
next
  assume "0 \<le> duration e \<and>
        (\<forall>x\<in>set xs. \<not> (startTime x \<le> startTime e \<and> startTime e \<le> startTime x + duration x))"
  then show "activeEffect (xs @ e # ys) (startTime e) = Some e"
    by (simp add: activeEffect_append activeEffect_Cons)
next
  assume "0 \<le> duration e \<and>
        (\<forall>x\<in>set xs. \<not> (startTime x \<le> startTime e + duration e \<and>
                          startTime e + duration e \<le> startTime x + duration x))"
  then show "activeEffect (xs @ e # ys) (startTime e + duration e) = Some e"
    by (simp add: activeEffect_append activeEffect_Cons)
qed

text \<open>
  On the two overlapping example effects: at time 5 both cover and the first is returned;
  at time 9 none covers; the second, behind the first, is returned at its last instant 8,
  and the first at its first instant 2.
\<close>

theorem activeEffect_first_match_witness:
  "activeEffect [effectInOut, effectDefault] 5 = Some effectInOut
   \<and> activeEffect [effectInOut, effectDefault] 9 = None
   \<and> activeEffect [effectInOut, effectDefault] 8 = Some effectDefault
   \<and> activeEffect [effectInOut, effectDefault] 2 = Some effectInOut"
proof -
  have first: "\<exists>i<length [effectInOut, effectDefault].
      [effectInOut, effectDefault] ! i = effectInOut \<and>
      startTime effectInOut \<le> 5 \<and> 5 \<le> startTime effectInOut + duration effectInOut \<and>
      (\<forall>j<i. \<not> (startTime ([effectInOut, effectDefault] ! j) \<le> 5 \<and>
                 5 \<le> startTime ([effectInOut, effectDefault] ! j)
                       + duration ([effectInOut, effectDefault] ! j)))"
    by (rule exI [of _ 0]) (simp add: effectInOut_def)
  have a: "activeEffect [effectInOut, effectDefault] 5 = Some effectInOut"
    using activeEffect_first_match [of "[effectInOut, effectDefault]" 5 effectInOut] first
    by blast
  have none: "\<forall>x\<in>set [effectInOut, effectDefault].
      \<not> (startTime x \<le> 9 \<and> 9 \<le> startTime x + duration x)"
    by (simp add: effectInOut_def effectDefault_def)
  have b: "activeEffect [effectInOut, effectDefault] 9 = None"
    using activeEffect_first_match [of "[effectInOut, effectDefault]" 9] none by blast
  have last: "0 \<le> duration effectDefault \<and>
      (\<forall>x\<in>set [effectInOut].
         \<not> (startTime x \<le> startTime effectDefault + duration effectDefault \<and>
            startTime effectDefault + duration effectDefault \<le> startTime x + duration x))"
    by (simp add: effectInOut_def effectDefault_def)
  have "activeEffect ([effectInOut] @ effectDefault # [])
          (startTime effectDefault + duration effectDefault) = Some effectDefault"
    using activeEffect_first_match [of _ _ effectDefault "[effectInOut]" "[]"] last by blast
  then have c: "activeEffect [effectInOut, effectDefault] 8 = Some effectDefault"
    by (simp add: effectDefault_def)
  have start: "0 \<le> duration effectInOut \<and>
      (\<forall>x\<in>set []. \<not> (startTime x \<le> startTime effectInOut \<and>
                        startTime effectInOut \<le> startTime x + duration x))"
    by (simp add: effectInOut_def)
  have "activeEffect ([] @ effectInOut # [effectDefault]) (startTime effectInOut)
          = Some effectInOut"
    using activeEffect_first_match [of _ _ effectInOut "[]" "[effectDefault]"] start by blast
  then have d: "activeEffect [effectInOut, effectDefault] 2 = Some effectInOut"
    by (simp add: effectInOut_def)
  show ?thesis
    using a b c d by blast
qed

section \<open>Zoom parameters\<close>

lemma calc_inactive:
  "activeEffect es t = None \<Longrightarrow>
   calculateZoomParameters es t = Some \<lparr>zoom = 1, centerX = 0.5, centerY = 0.5, isActive = False\<rparr>"
  by (simp add: calculateZoomParameters_def)

lemma calc_zero_duration:
  "activeEffect es t = Some e \<Longrightarrow> duration e = 0 \<Longrightarrow> calculateZoomParameters es t = None"
  by (simp add: calculateZoomParameters_def divide_number_def)

lemma calc_active:
  assumes "activeEffect es t = Some e" and "duration e \<noteq> 0"
  shows "calculateZoomParameters es t =
    Some \<lparr>zoom = 1 + (level e - 1) *
              (case zoomStyle e of
                 Some InOnly \<Rightarrow> easeInOutCubic ((t - startTime e) / duration e)
               | Some OutOnly \<Rightarrow> easeInOutCubic (1 - (t - startTime e) / duration e)
               | _ \<Rightarrow> if (t - startTime e) / duration e < 0.5
                      then easeInOutCubic ((t - startTime e) / duration e * 2)
                      else easeInOutCubic ((1 - (t - startTime e) / duration e) * 2)),
          centerX = ZoomEffect.centerX e, centerY = ZoomEffect.centerY e, isActive = True\<rparr>"
  using assms
  by (simp add: calculateZoomParameters_def divide_number_def Let_def
           split: option.split ZoomStyle.split)

lemma progress_range:
  assumes "activeEffect es t = Some e" and "0 < duration e"
  shows "0 \<le> (t - startTime e) / duration e" and "(t - startTime e) / duration e \<le> 1"
proof -
  have c: "startTime e \<le> t" "t \<le> startTime e + duration e"
    using activeEffect_covers [OF assms(1)] by simp_all
  show "0 \<le> (t - startTime e) / duration e"
    using c assms(2) by simp
  show "(t - startTime e) / duration e \<le> 1"
    using c assms(2) by simp
qed

lemma calc_None_iff:
  "calculateZoomParameters es t = None \<longleftrightarrow> (\<exists>e. activeEffect es t = Some e \<and> duration e = 0)"
proof (cases "activeEffect es t")
  case None
  then show ?thesis
    by (simp add: calc_inactive)
next
  case (Some e)
  then show ?thesis
    by (cases "duration e = 0") (simp_all add: calc_zero_duration calc_active)
qed

text \<open>
  Claim C1. When the lookup finds the effect \<open>e\<close> at time \<open>t\<close> and the duration of \<open>e\<close> is
  positive, the progress \<open>(t - startTime) / duration\<close> lies between 0 and 1, and the
  resolver returns the zoom \<open>1 + (level - 1) * zoomProgress\<close>, the centre of the effect
  unchanged, and \<open>isActive\<close> true; \<open>zoomProgress\<close> is the easing of the progress for the
  style in-only, of one minus the progress for out-only, and for in-out and for an absent
  style the easing of twice the progress below one half and of twice one minus the
  progress from one half on.
\<close>

theorem calculateZoomParameters_active:
  assumes "activeEffect zoomEffects t = Some e" and "0 < duration e"
  shows "let progress = (t - startTime e) / duration e;
             zoomProgress =
               (if zoomStyle e = Some InOnly then easeInOutCubic progress
                else if zoomStyle e = Some OutOnly then easeInOutCubic (1 - progress)
                else if progress < 0.5 then easeInOutCubic (progress * 2)
                else easeInOutCubic ((1 - progress) * 2))
         in 0 \<le> progress \<and> progress \<le> 1 \<and>
            calculateZoomParameters zoomEffects t =
              Some \<lparr>zoom = 1 + (level e - 1) * zoomProgress,
                    centerX = ZoomEffect.centerX e,
                    centerY = ZoomEffect.centerY e,
                    isActive = True\<rparr>"
proof -
  have d: "duration e \<noteq> 0"
    using assms(2) by simp
  show ?thesis
    unfolding Let_def
    using progress_range [OF assms] calc_active [OF assms(1) d]
    by (simp split: option.split ZoomStyle.split)
qed

text \<open>
  Scenario A of the specification: at time 4 the effect starting at 2 and lasting 4 is at
  progress one half and the zoom is its level 2. One second later, in the second half,
  the zoom is \<open>1 + easeInOutCubic 0.5 = 1.5\<close>.
\<close>

theorem calculateZoomParameters_active_witness:
  "calculateZoomParameters [effectInOut] 4 =
     Some \<lparr>zoom = 2, centerX = 1/2, centerY = 1/2, isActive = True\<rparr>
   \<and> calculateZoomParameters [effectInOut] 5 =
     Some \<lparr>zoom = 3/2, centerX = 1/2, centerY = 1/2, isActive = True\<rparr>"
proof -
  have a4: "activeEffect [effectInOut] 4 = Some effectInOut"
    and a5: "activeEffect [effectInOut] 5 = Some effectInOut"
    by (simp_all add: activeEffect_Cons effectInOut_def)
  have d: "0 < duration effectInOut"
    by (simp add: effectInOut_def)
  have "calculateZoomParameters [effectInOut] 4 =
     Some \<lparr>zoom = 2, centerX = 1/2, centerY = 1/2, isActive = True\<rparr>"
    using calculateZoomParameters_active [OF a4 d]
    by (simp add: Let_def effectInOut_def easeInOutCubic_def)
  moreover have "calculateZoomParameters [effectInOut] 5 =
     Some \<lparr>zoom = 3/2, centerX = 1/2, centerY = 1/2, isActive = True\<rparr>"
    using calculateZoomParameters_active [OF a5 d]
    by (simp add: Let_def effectInOut_def easeInOutCubic_def)
  ultimately show ?thesis
    by blast
qed

text \<open>
  Claim C7. At a time at which the lookup finds no effect, that is, at which no effect of
  the collection covers the time, and so for the empty collection at every time, the
  resolved parameters are zoom 1, centre (0.5, 0.5) and \<open>isActive\<close> false.
\<close>

theorem calculateZoomParameters_inactive:
  "(activeEffect zoomEffects t = None \<longrightarrow>
      calculateZoomParameters zoomEffects t =
        Some \<lparr>zoom = 1, centerX = 0.5, centerY = 0.5, isActive = False\<rparr>)
   \<and> ((\<forall>e\<in>set zoomEffects. \<not> (startTime e \<le> t \<and> t \<le> startTime e + duration e)) \<longrightarrow>
      calculateZoomParameters zoomEffects t =
        Some \<lparr>zoom = 1, centerX = 0.5, centerY = 0.5, isActive = False\<rparr>)
   \<and> calculateZoomParameters [] t =
        Some \<lparr>zoom = 1, centerX = 0.5, centerY = 0.5, isActive = False\<rparr>"
  using calc_inactive [of zoomEffects t] calc_inactive [of "[]" t]
  by (simp add: activeEffect_None_iff activeEffect_Nil)

theorem calculateZoomParameters_inactive_witness:
  "calculateZoomParameters [effectInOut, effectDefault] 9 =
     Some \<lparr>zoom = 1, centerX = 1/2, centerY = 1/2, isActive = False\<rparr>
   \<and> calculateZoomParameters [effectInOut, effectDefault] 1 =
     Some \<lparr>zoom = 1, centerX = 1/2, centerY = 1/2, isActive = False\<rparr>"
proof -
  have none: "activeEffect [effectInOut, effectDefault] 9 = None"
    by (simp add: activeEffect_Cons activeEffect_Nil effectInOut_def effectDefault_def)
  have out: "\<forall>e\<in>set [effectInOut, effectDefault].
      \<not> (startTime e \<le> 1 \<and> 1 \<le> startTime e + duration e)"
    by (simp add: effectInOut_def effectDefault_def)
  have "calculateZoomParameters [effectInOut, effectDefault] 9 =
     Some \<lparr>zoom = 1, centerX = 0.5, centerY = 0.5, isActive = False\<rparr>"
    using calculateZoomParameters_inactive [of "[effectInOut, effectDefault]" 9] none by blast
  moreover have "calculateZoomParameters [effectInOut, effectDefault] 1 =
     Some \<lparr>zoom = 1, centerX = 0.5, centerY = 0.5, isActive = False\<rparr>"
    using calculateZoomParameters_inactive [of "[effectInOut, effectDefault]" 1] out by blast
  ultimately show ?thesis
    by simp
qed

text \<open>
  Claim C9. When every effect of the collection has a positive duration, the resolver has
  a value at every time, and at a time at which an effect is active the quotient
  \<open>(time - startTime) / duration\<close> is taken with a divisor that is not zero. The code has
  no guard of its own: the resolver has no value exactly when the effect the lookup finds
  has duration zero. An effect the lookup finds never has a negative duration, its window
  being empty.
\<close>

theorem progress_division_defined:
  "((\<forall>e\<in>set zoomEffects. 0 < duration e) \<longrightarrow>
      calculateZoomParameters zoomEffects t \<noteq> None \<and>
      (\<forall>e. activeEffect zoomEffects t = Some e \<longrightarrow>
         duration e \<noteq> 0 \<and>
         divide_number (t - startTime e) (duration e) = Some ((t - startTime e) / duration e)))
   \<and> (calculateZoomParameters zoomEffects t = None \<longleftrightarrow>
        (\<exists>e. activeEffect zoomEffects t = Some e \<and> duration e = 0))
   \<and> (activeEffect zoomEffects t = Some e \<longrightarrow> 0 \<le> duration e)"
proof (intro conjI impI allI)
  assume pos: "\<forall>e\<in>set zoomEffects. 0 < duration e"
  show "calculateZoomParameters zoomEffects t \<noteq> None"
  proof
    assume "calculateZoomParameters zoomEffects t = None"
    then obtain e where e: "activeEffect zoomEffects t = Some e" "duration e = 0"
      unfolding calc_None_iff by blast
    then have "e \<in> set zoomEffects"
      using activeEffect_covers by blast
    then show False
      using pos e(2) by auto
  qed
next
  fix e
  assume pos: "\<forall>e\<in>set zoomEffects. 0 < duration e"
    and e: "activeEffect zoomEffects t = Some e"
  have "e \<in> set zoomEffects"
    using activeEffect_covers [OF e] by simp
  then show d: "duration e \<noteq> 0"
    using pos by auto
  then show "divide_number (t - startTime e) (duration e) = Some ((t - startTime e) / duration e)"
    by (simp add: divide_number_def)
next
  show "calculateZoomParameters zoomEffects t = None \<longleftrightarrow>
        (\<exists>e. activeEffect zoomEffects t = Some e \<and> duration e = 0)"
    by (rule calc_None_iff)
next
  assume "activeEffect zoomEffects t = Some e"
  then show "0 \<le> duration e"
    by (rule active_duration_nonneg)
qed

text \<open>
  With positive durations the resolver has a value at time 5, where the quotient is 3/4.
  An effect of duration zero is active at its start time only, and there the resolver
  has no value.
\<close>

theorem progress_division_defined_witness:
  "calculateZoomParameters [effectInOut, effectDefault] 5 \<noteq> None
   \<and> divide_number (5 - startTime effectInOut) (duration effectInOut) = Some (3/4)
   \<and> calculateZoomParameters [effectInstant] 1 = None
   \<and> 0 \<le> duration effectInstant"
proof -
  have pos: "\<forall>e\<in>set [effectInOut, effectDefault]. 0 < duration e"
    by (simp add: effectInOut_def effectDefault_def)
  have act: "activeEffect [effectInOut, effectDefault] 5 = Some effectInOut"
    by (simp add: activeEffect_Cons effectInOut_def)
  have a: "calculateZoomParameters [effectInOut, effectDefault] 5 \<noteq> None"
    using progress_division_defined [of "[effectInOut, effectDefault]" 5] pos by blast
  have "divide_number (5 - startTime effectInOut) (duration effectInOut)
          = Some ((5 - startTime effectInOut) / duration effectInOut)"
    using progress_division_defined [of "[effectInOut, effectDefault]" 5] pos act by blast
  then have b: "divide_number (5 - startTime effectInOut) (duration effectInOut) = Some (3/4)"
    by (simp add: effectInOut_def)
  have zero: "activeEffect [effectInstant] 1 = Some effectInstant \<and> duration effectInstant = 0"
    by (simp add: activeEffect_Cons effectInstant_def)
  have c: "calculateZoomParameters [effectInstant] 1 = None"
    using progress_division_defined [of "[effectInstant]" 1] zero by blast
  have d: "0 \<le> duration effectInstant"
    using progress_division_defined [of "[effectInstant]" 1 effectInstant] zero by blast
  show ?thesis
    using a b c d by blast
qed

section \<open>The zoom over the life of an effect\<close>

lemma zoom_in_only:
  assumes "activeEffect es t = Some e" "0 < duration e" "zoomStyle e = Some InOnly"
  shows "map_option zoom (calculateZoomParameters es t) =
           Some (1 + (level e - 1) * easeInOutCubic ((t - startTime e) / duration e))"
  using assms calc_active [of es t e] by simp

lemma zoom_out_only:
  assumes "activeEffect es t = Some e" "0 < duration e" "zoomStyle e = Some OutOnly"
  shows "map_option zoom (calculateZoomParameters es t) =
           Some (1 + (level e - 1) * easeInOutCubic (1 - (t - startTime e) / duration e))"
  using assms calc_active [of es t e] by simp

lemma zoom_in_out:
  assumes "activeEffect es t = Some e" "0 < duration e"
    "zoomStyle e = Some InOut \<or> zoomStyle e = None"
  shows "map_option zoom (calculateZoomParameters es t) =
           Some (1 + (level e - 1) *
             (if (t - startTime e) / duration e < 0.5
              then easeInOutCubic ((t - startTime e) / duration e * 2)
              else easeInOutCubic ((1 - (t - startTime e) / duration e) * 2)))"
  using assms calc_active [of es t e] by auto

lemma progress_mono:
  fixes d :: real
  assumes "0 < d" "t1 \<le> t2"
  shows "(t1 - s) / d \<le> (t2 - s) / d"
  using assms by (simp add: divide_right_mono)

text \<open>
  Claim C6. Let the effect \<open>e\<close> have a level of at least 1 and a positive duration, and
  consider the times at which the lookup finds \<open>e\<close>. Progress 0 is the time \<open>startTime\<close>,
  progress 1 the time \<open>startTime + duration\<close>, progress one half the time
  \<open>startTime + duration * 0.5\<close>, and the progress grows with the time. With the style
  in-only the zoom is 1 at progress 0, the level at progress 1, and does not decrease from
  an earlier to a later time. With the style out-only the zoom is the level at progress 0,
  1 at progress 1, and does not increase. With the style in-out, or with no style, the
  zoom is 1 at progress 0 and at progress 1 and the level at progress one half.
\<close>

theorem zoom_profile_by_style:
  assumes "1 \<le> level e" and "0 < duration e"
  shows
   "(zoomStyle e = Some InOnly \<longrightarrow>
       (activeEffect es (startTime e) = Some e \<longrightarrow>
          map_option zoom (calculateZoomParameters es (startTime e)) = Some 1)
     \<and> (activeEffect es (startTime e + duration e) = Some e \<longrightarrow>
          map_option zoom (calculateZoomParameters es (startTime e + duration e)) = Some (level e))
     \<and> (\<forall>t1 t2. t1 \<le> t2 \<and> activeEffect es t1 = Some e \<and> activeEffect es t2 = Some e \<longrightarrow>
          (\<exists>z1 z2. map_option zoom (calculateZoomParameters es t1) = Some z1 \<and>
                   map_option zoom (calculateZoomParameters es t2) = Some z2 \<and> z1 \<le> z2)))
  \<and> (zoomStyle e = Some OutOnly \<longrightarrow>
       (activeEffect es (startTime e) = Some e \<longrightarrow>
          map_option zoom (calculateZoomParameters es (startTime e)) = Some (level e))
     \<and> (activeEffect es (startTime e + duration e) = Some e \<longrightarrow>
          map_option zoom (calculateZoomParameters es (startTime e + duration e)) = Some 1)
     \<and> (\<forall>t1 t2. t1 \<le> t2 \<and> activeEffect es t1 = Some e \<and> activeEffect es t2 = Some e \<longrightarrow>
          (\<exists>z1 z2. map_option zoom (calculateZoomParameters es t1) = Some z1 \<and>
                   map_option zoom (calculateZoomParameters es t2) = Some z2 \<and> z2 \<le> z1)))
  \<and> (zoomStyle e = Some InOut \<or> zoomStyle e = None \<longrightarrow>
       (activeEffect es (startTime e) = Some e \<longrightarrow>
          map_option zoom (calculateZoomParameters es (startTime e)) = Some 1)
     \<and> (activeEffect es (startTime e + duration e) = Some e \<longrightarrow>
          map_option zoom (calculateZoomParameters es (startTime e + duration e)) = Some 1)
     \<and> (activeEffect es (startTime e + duration e * 0.5) = Some e \<longrightarrow>
          map_option zoom (calculateZoomParameters es (startTime e + duration e * 0.5)) =
            Some (level e)))"
proof (intro conjI impI allI)
  assume s: "zoomStyle e = Some InOnly"
  { assume a: "activeEffect es (startTime e) = Some e"
    show "map_option zoom (calculateZoomParameters es (startTime e)) = Some 1"
      using zoom_in_only [OF a assms(2) s] by (simp add: ease_0) }
  { assume a: "activeEffect es (startTime e + duration e) = Some e"
    show "map_option zoom (calculateZoomParameters es (startTime e + duration e)) = Some (level e)"
      using zoom_in_only [OF a assms(2) s] assms(2) by (simp add: ease_1) }
  { fix t1 t2
    assume h: "t1 \<le> t2 \<and> activeEffect es t1 = Some e \<and> activeEffect es t2 = Some e"
    then have a1: "activeEffect es t1 = Some e" and a2: "activeEffect es t2 = Some e"
      and le: "t1 \<le> t2"
      by simp_all
    have "easeInOutCubic ((t1 - startTime e) / duration e)
            \<le> easeInOutCubic ((t2 - startTime e) / duration e)"
      using progress_range [OF a1 assms(2)] progress_range [OF a2 assms(2)]
            progress_mono [OF assms(2) le]
      by (intro ease_mono) simp_all
    then have "1 + (level e - 1) * easeInOutCubic ((t1 - startTime e) / duration e)
            \<le> 1 + (level e - 1) * easeInOutCubic ((t2 - startTime e) / duration e)"
      using assms(1) by (simp add: mult_left_mono)
    then show "\<exists>z1 z2. map_option zoom (calculateZoomParameters es t1) = Some z1 \<and>
                   map_option zoom (calculateZoomParameters es t2) = Some z2 \<and> z1 \<le> z2"
      using zoom_in_only [OF a1 assms(2) s] zoom_in_only [OF a2 assms(2) s] by auto }
next
  assume s: "zoomStyle e = Some OutOnly"
  { assume a: "activeEffect es (startTime e) = Some e"
    show "map_option zoom (calculateZoomParameters es (startTime e)) = Some (level e)"
      using zoom_out_only [OF a assms(2) s] by (simp add: ease_1) }
  { assume a: "activeEffect es (startTime e + duration e) = Some e"
    show "map_option zoom (calculateZoomParameters es (startTime e + duration e)) = Some 1"
      using zoom_out_only [OF a assms(2) s] assms(2) by (simp add: ease_0) }
  { fix t1 t2
    assume h: "t1 \<le> t2 \<and> activeEffect es t1 = Some e \<and> activeEffect es t2 = Some e"
    then have a1: "activeEffect es t1 = Some e" and a2: "activeEffect es t2 = Some e"
      and le: "t1 \<le> t2"
      by simp_all
    have "easeInOutCubic (1 - (t2 - startTime e) / duration e)
            \<le> easeInOutCubic (1 - (t1 - startTime e) / duration e)"
      using progress_range [OF a1 assms(2)] progress_range [OF a2 assms(2)]
            progress_mono [OF assms(2) le]
      by (intro ease_mono) simp_all
    then have "1 + (level e - 1) * easeInOutCubic (1 - (t2 - startTime e) / duration e)
            \<le> 1 + (level e - 1) * easeInOutCubic (1 - (t1 - startTime e) / duration e)"
      using assms(1) by (simp add: mult_left_mono)
    then show "\<exists>z1 z2. map_option zoom (calculateZoomParameters es t1) = Some z1 \<and>
                   map_option zoom (calculateZoomParameters es t2) = Some z2 \<and> z2 \<le> z1"
      using zoom_out_only [OF a1 assms(2) s] zoom_out_only [OF a2 assms(2) s] by auto }
next
  assume s: "zoomStyle e = Some InOut \<or> zoomStyle e = None"
  { assume a: "activeEffect es (startTime e) = Some e"
    show "map_option zoom (calculateZoomParameters es (startTime e)) = Some 1"
      using zoom_in_out [OF a assms(2) s] by (simp add: ease_0) }
  { assume a: "activeEffect es (startTime e + duration e) = Some e"
    show "map_option zoom (calculateZoomParameters es (startTime e + duration e)) = Some 1"
      using zoom_in_out [OF a assms(2) s] assms(2) by (simp add: ease_0) }
  { assume a: "activeEffect es (startTime e + duration e * 0.5) = Some e"
    show "map_option zoom (calculateZoomParameters es (startTime e + duration e * 0.5)) =
            Some (level e)"
      using zoom_in_out [OF a assms(2) s] assms(2) by (simp add: ease_1) }
qed

text \<open>
  Effects of level 3 from time 4 to time 8, one zooming in only and one zooming out only,
  and the in-out effect of level 2 from time 2 to time 6.
\<close>

theorem zoom_profile_by_style_witness:
  "map_option zoom (calculateZoomParameters [effectInOnly] 4) = Some 1
   \<and> map_option zoom (calculateZoomParameters [effectInOnly] 8) = Some 3
   \<and> (\<exists>z1 z2. map_option zoom (calculateZoomParameters [effectInOnly] 5) = Some z1 \<and>
               map_option zoom (calculateZoomParameters [effectInOnly] 7) = Some z2 \<and> z1 \<le> z2)
   \<and> map_option zoom (calculateZoomParameters [effectOutOnly] 4) = Some 3
   \<and> map_option zoom (calculateZoomParameters [effectOutOnly] 8) = Some 1
   \<and> (\<exists>z1 z2. map_option zoom (calculateZoomParameters [effectOutOnly] 5) = Some z1 \<and>
               map_option zoom (calculateZoomParameters [effectOutOnly] 7) = Some z2 \<and> z2 \<le> z1)
   \<and> map_option zoom (calculateZoomParameters [effectInOut] 2) = Some 1
   \<and> map_option zoom (calculateZoomParameters [effectInOut] 6) = Some 1
   \<and> map_option zoom (calculateZoomParameters [effectInOut] 4) = Some 2"
proof -
  have i: "1 \<le> level effectInOnly" "0 < duration effectInOnly"
      "zoomStyle effectInOnly = Some InOnly"
    and iv: "startTime effectInOnly = 4" "duration effectInOnly = 4" "level effectInOnly = 3"
    and ia: "\<And>t. 4 \<le> t \<Longrightarrow> t \<le> 8 \<Longrightarrow> activeEffect [effectInOnly] t = Some effectInOnly"
    by (simp_all add: activeEffect_Cons effectInOnly_def)
  note I = zoom_profile_by_style [OF i(1) i(2), of "[effectInOnly]"]
  have i1: "map_option zoom (calculateZoomParameters [effectInOnly] 4) = Some 1"
    using I i(3) ia [of 4] iv by simp
  have i2: "map_option zoom (calculateZoomParameters [effectInOnly] 8) = Some 3"
    using I i(3) ia [of 8] iv by simp
  have "\<forall>t1 t2. t1 \<le> t2 \<and> activeEffect [effectInOnly] t1 = Some effectInOnly \<and>
          activeEffect [effectInOnly] t2 = Some effectInOnly \<longrightarrow>
          (\<exists>z1 z2. map_option zoom (calculateZoomParameters [effectInOnly] t1) = Some z1 \<and>
                   map_option zoom (calculateZoomParameters [effectInOnly] t2) = Some z2 \<and>
                   z1 \<le> z2)"
    using I i(3) by blast
  then have i3: "\<exists>z1 z2. map_option zoom (calculateZoomParameters [effectInOnly] 5) = Some z1 \<and>
               map_option zoom (calculateZoomParameters [effectInOnly] 7) = Some z2 \<and> z1 \<le> z2"
    using ia [of 5] ia [of 7] by simp
  have o: "1 \<le> level effectOutOnly" "0 < duration effectOutOnly"
      "zoomStyle effectOutOnly = Some OutOnly"
    and ov: "startTime effectOutOnly = 4" "duration effectOutOnly = 4" "level effectOutOnly = 3"
    and oa: "\<And>t. 4 \<le> t \<Longrightarrow> t \<le> 8 \<Longrightarrow> activeEffect [effectOutOnly] t = Some effectOutOnly"
    by (simp_all add: activeEffect_Cons effectOutOnly_def)
  note O = zoom_profile_by_style [OF o(1) o(2), of "[effectOutOnly]"]
  have o1: "map_option zoom (calculateZoomParameters [effectOutOnly] 4) = Some 3"
    using O o(3) oa [of 4] ov by simp
  have o2: "map_option zoom (calculateZoomParameters [effectOutOnly] 8) = Some 1"
    using O o(3) oa [of 8] ov by simp
  have "\<forall>t1 t2. t1 \<le> t2 \<and> activeEffect [effectOutOnly] t1 = Some effectOutOnly \<and>
          activeEffect [effectOutOnly] t2 = Some effectOutOnly \<longrightarrow>
          (\<exists>z1 z2. map_option zoom (calculateZoomParameters [effectOutOnly] t1) = Some z1 \<and>
                   map_option zoom (calculateZoomParameters [effectOutOnly] t2) = Some z2 \<and>
                   z2 \<le> z1)"
    using O o(3) by blast
  then have o3: "\<exists>z1 z2. map_option zoom (calculateZoomParameters [effectOutOnly] 5) = Some z1 \<and>
               map_option zoom (calculateZoomParameters [effectOutOnly] 7) = Some z2 \<and> z2 \<le> z1"
    using oa [of 5] oa [of 7] by simp
  have b: "1 \<le> level effectInOut" "0 < duration effectInOut"
      "zoomStyle effectInOut = Some InOut \<or> zoomStyle effectInOut = None"
    and bv: "startTime effectInOut = 2" "duration effectInOut = 4" "level effectInOut = 2"
    and ba: "\<And>t. 2 \<le> t \<Longrightarrow> t \<le> 6 \<Longrightarrow> activeEffect [effectInOut] t = Some effectInOut"
    by (simp_all add: activeEffect_Cons effectInOut_def)
  note B = zoom_profile_by_style [OF b(1) b(2), of "[effectInOut]"]
  have b1: "map_option zoom (calculateZoomParameters [effectInOut] 2) = Some 1"
    using B b(3) ba [of 2] bv by simp
  have b2: "map_option zoom (calculateZoomParameters [effectInOut] 6) = Some 1"
    using B b(3) ba [of 6] bv by simp
  have b3: "map_option zoom (calculateZoomParameters [effectInOut] 4) = Some 2"
    using B b(3) ba [of 4] bv by simp
  show ?thesis
    using i1 i2 i3 o1 o2 o3 b1 b2 b3 by blast
qed

section \<open>Interpolation between frames\<close>

subsection \<open>Rounding to the nearest double\<close>

lemma roundHalfEven_of_int: "roundHalfEven (of_int n) = n"
  by (simp add: roundHalfEven_def)

lemma roundHalfEven_bounds: "\<lfloor>q\<rfloor> \<le> roundHalfEven q" "roundHalfEven q \<le> \<lfloor>q\<rfloor> + 1"
  by (simp_all add: roundHalfEven_def Let_def)

lemma roundHalfEven_mono:
  assumes "q \<le> q'"
  shows "roundHalfEven q \<le> roundHalfEven q'"
proof (cases "\<lfloor>q\<rfloor> = \<lfloor>q'\<rfloor>")
  case True
  then show ?thesis
    using assms by (auto simp: roundHalfEven_def Let_def)
next
  case False
  then have "\<lfloor>q\<rfloor> + 1 \<le> \<lfloor>q'\<rfloor>"
    using floor_mono [OF assms] by simp
  then show ?thesis
    using roundHalfEven_bounds(2) [of q] roundHalfEven_bounds(1) [of q'] by linarith
qed

lemma bitlen_le_nat: "bitlen x \<le> int w \<longleftrightarrow> x < 2 ^ w"
  using bitlen_le_iff_power [of x "int w"] by simp

lemma bitlen_ge_nat: "int w + 1 \<le> bitlen x \<longleftrightarrow> 2 ^ w \<le> x"
  using bitlen_ge_iff_power [of "int w + 1" x] by (simp add: nat_add_distrib)

lemma dropped_upper:
  fixes y :: real
  assumes "j = nat (bitlen \<lfloor>y\<rfloor> - 53)"
  shows "y < 2 ^ (53 + j)"
proof -
  have "bitlen \<lfloor>y\<rfloor> \<le> int (53 + j)"
    using assms by simp
  then have "\<lfloor>y\<rfloor> < 2 ^ (53 + j)"
    unfolding bitlen_le_nat .
  then show ?thesis
    by (simp add: floor_less_iff)
qed

lemma dropped_lower:
  fixes y :: real
  assumes "j = nat (bitlen \<lfloor>y\<rfloor> - 53)" and "0 < j"
  shows "2 ^ (52 + j) \<le> y"
proof -
  have "int (52 + j) + 1 \<le> bitlen \<lfloor>y\<rfloor>"
    using assms by simp
  then have "(2::int) ^ (52 + j) \<le> \<lfloor>y\<rfloor>"
    unfolding bitlen_ge_nat .
  then show ?thesis
    by (simp add: le_floor_iff)
qed

lemma dropped_eq:
  fixes y :: real
  assumes "j = 0 \<or> 2 ^ (52 + j) \<le> y" and "y < 2 ^ (53 + j)"
  shows "nat (bitlen \<lfloor>y\<rfloor> - 53) = j"
proof -
  have "\<lfloor>y\<rfloor> < 2 ^ (53 + j)"
    using assms(2) by (simp add: floor_less_iff)
  then have up: "bitlen \<lfloor>y\<rfloor> \<le> int (53 + j)"
    unfolding bitlen_le_nat .
  show ?thesis
  proof (cases "j = 0")
    case True
    then show ?thesis using up by simp
  next
    case False
    then have "(2::int) ^ (52 + j) \<le> \<lfloor>y\<rfloor>"
      using assms(1) by (simp add: le_floor_iff)
    then have "int (52 + j) + 1 \<le> bitlen \<lfloor>y\<rfloor>"
      unfolding bitlen_ge_nat .
    then show ?thesis using up by simp
  qed
qed

lemma roundMagnitude_scaled: "roundMagnitude x = of_int (round53 (x * 2 ^ 1074)) / 2 ^ 1074"
  by (simp add: roundMagnitude_def)

lemma round53_at:
  assumes "j = 0 \<or> 2 ^ (52 + j) \<le> y" and "y < 2 ^ (53 + j)"
  shows "round53 y = roundHalfEven (y / 2 ^ j) * 2 ^ j"
  using dropped_eq [OF assms] by (simp add: round53_def Let_def)

lemma round53_representable:
  assumes "0 \<le> n" and "n \<le> 2 ^ 53"
  shows "round53 (of_int (n * 2 ^ j)) = n * 2 ^ j"
proof -
  consider "n = 0" | "n = 2 ^ 53" | "0 < n" "n < 2 ^ 53"
    using assms by linarith
  then show ?thesis
  proof cases
    case 1
    then show ?thesis
      by (simp add: round53_def Let_def roundHalfEven_def)
  next
    case 2
    have y: "(of_int (n * 2 ^ j) :: real) = 2 ^ (53 + j)"
      using 2 by (simp add: power_add)
    have "round53 (2 ^ (53 + j) :: real) = roundHalfEven (2 ^ (53 + j) / 2 ^ (j + 1)) * 2 ^ (j + 1)"
      by (rule round53_at) simp_all
    also have "(2 ^ (53 + j) / 2 ^ (j + 1) :: real) = of_int (2 ^ 52)"
      by (simp add: power_add)
    finally show ?thesis
      unfolding y roundHalfEven_of_int using 2 by (simp add: power_add)
  next
    case 3
    define k where "k = nat (bitlen (n * 2 ^ j) - 53)"
    have "bitlen (n * 2 ^ j) = bitlen n + int j"
      using 3 by simp
    moreover have "bitlen n \<le> int 53"
      unfolding bitlen_le_nat using 3 by simp
    ultimately have kj: "k \<le> j"
      unfolding k_def by simp
    then obtain d where d: "j = k + d"
      by (auto simp: le_iff_add)
    have "(of_int (n * 2 ^ j) :: real) / 2 ^ k = of_int (n * 2 ^ d)"
      by (simp add: d power_add)
    then have "roundHalfEven (of_int (n * 2 ^ j) / 2 ^ k) * 2 ^ k = n * 2 ^ d * 2 ^ k"
      by (simp only: roundHalfEven_of_int)
    also have "\<dots> = n * 2 ^ j"
      by (simp add: d power_add)
    finally have r: "roundHalfEven (of_int (n * 2 ^ j) / 2 ^ k) * 2 ^ k = n * 2 ^ j" .
    have "\<lfloor>real_of_int n * 2 ^ j\<rfloor> = n * 2 ^ j"
      using floor_of_int [of "n * 2 ^ j", where ?'a = real] by simp
    then show ?thesis
      using r by (simp add: round53_def Let_def k_def)
  qed
qed

lemma round53_form:
  assumes "0 \<le> y"
  shows "\<exists>n j. 0 \<le> n \<and> n \<le> 2 ^ 53 \<and> round53 y = n * 2 ^ j"
proof -
  define j where "j = nat (bitlen \<lfloor>y\<rfloor> - 53)"
  define n where "n = roundHalfEven (y / 2 ^ j)"
  have "y / 2 ^ j < 2 ^ 53"
    using dropped_upper [OF j_def] by (simp add: power_add divide_less_eq)
  then have "n \<le> roundHalfEven (of_int (2 ^ 53))"
    unfolding n_def by (intro roundHalfEven_mono) simp
  then have "n \<le> 2 ^ 53"
    unfolding roundHalfEven_of_int .
  moreover have "roundHalfEven (of_int 0) \<le> n"
    unfolding n_def using assms by (intro roundHalfEven_mono) simp
  then have "0 \<le> n"
    unfolding roundHalfEven_of_int .
  moreover have "round53 y = n * 2 ^ j"
    by (simp add: round53_def Let_def n_def j_def)
  ultimately show ?thesis
    by blast
qed

lemma round53_nonneg: "0 \<le> y \<Longrightarrow> 0 \<le> round53 y"
  using round53_form [of y] by auto

lemma round53_idem: "0 \<le> y \<Longrightarrow> round53 (of_int (round53 y)) = round53 y"
  using round53_form [of y] round53_representable by auto

lemma round53_mono:
  assumes "0 \<le> y" and "y \<le> y'"
  shows "round53 y \<le> round53 y'"
proof -
  define j where "j = nat (bitlen \<lfloor>y\<rfloor> - 53)"
  define j' where "j' = nat (bitlen \<lfloor>y'\<rfloor> - 53)"
  have r: "round53 y = roundHalfEven (y / 2 ^ j) * 2 ^ j"
    and r': "round53 y' = roundHalfEven (y' / 2 ^ j') * 2 ^ j'"
    by (simp_all add: round53_def Let_def j_def j'_def)
  have up: "y < 2 ^ (53 + j)" and up': "y' < 2 ^ (53 + j')"
    using dropped_upper [OF j_def] dropped_upper [OF j'_def] by simp_all
  consider "j = j'" | "j < j'" | "j' < j"
    by linarith
  then show ?thesis
  proof cases
    case 1
    have "y / 2 ^ j \<le> y' / 2 ^ j"
      using assms(2) by (simp add: divide_right_mono)
    then have "roundHalfEven (y / 2 ^ j) \<le> roundHalfEven (y' / 2 ^ j)"
      by (rule roundHalfEven_mono)
    then show ?thesis
      unfolding r r' using 1 by simp
  next
    case 2
    then have "53 + j \<le> 52 + j'"
      by simp
    then obtain d where d: "52 + j' = 53 + j + d"
      by (auto simp: le_iff_add)
    have low': "2 ^ (52 + j') \<le> y'"
      using dropped_lower [OF j'_def] 2 by simp
    have "(1::real) \<le> 2 ^ d"
      by simp
    then have "(2::real) ^ (53 + j) \<le> 2 ^ (53 + d) * 2 ^ j"
      by (simp add: power_add)
    then have "y \<le> 2 ^ (53 + d) * 2 ^ j"
      using up by linarith
    then have "y / 2 ^ j \<le> of_int (2 ^ (53 + d))"
      by (simp add: divide_le_eq)
    then have "roundHalfEven (y / 2 ^ j) \<le> roundHalfEven (of_int (2 ^ (53 + d)))"
      by (rule roundHalfEven_mono)
    then have "roundHalfEven (y / 2 ^ j) \<le> 2 ^ (53 + d)"
      unfolding roundHalfEven_of_int .
    then have "roundHalfEven (y / 2 ^ j) * 2 ^ j \<le> 2 ^ (53 + d) * 2 ^ j"
      by (simp add: mult_right_mono)
    also have "\<dots> = (2::int) ^ (52 + j')"
      unfolding d by (simp add: power_add)
    finally have a: "round53 y \<le> 2 ^ (52 + j')"
      unfolding r .
    have "of_int (2 ^ 52) \<le> y' / 2 ^ j'"
      using low' by (simp add: power_add le_divide_eq)
    then have "roundHalfEven (of_int (2 ^ 52)) \<le> roundHalfEven (y' / 2 ^ j')"
      by (rule roundHalfEven_mono)
    then have "2 ^ 52 \<le> roundHalfEven (y' / 2 ^ j')"
      unfolding roundHalfEven_of_int .
    then have "2 ^ 52 * 2 ^ j' \<le> roundHalfEven (y' / 2 ^ j') * 2 ^ j'"
      by (simp add: mult_right_mono)
    then have b: "2 ^ (52 + j') \<le> round53 y'"
      unfolding r' by (simp add: power_add)
    show ?thesis
      using a b by linarith
  next
    case 3
    then have "2 ^ (52 + j) \<le> y"
      using dropped_lower [OF j_def] by simp
    moreover have "(2::real) ^ (53 + j') \<le> 2 ^ (52 + j)"
      using 3 by (intro power_increasing) simp_all
    ultimately have False
      using up' assms(2) by linarith
    then show ?thesis ..
  qed
qed

lemma roundMagnitude_nonneg: "0 \<le> x \<Longrightarrow> 0 \<le> roundMagnitude x"
  using round53_nonneg [of "x * 2 ^ 1074"] by (simp add: roundMagnitude_scaled)

lemma roundMagnitude_mono: "0 \<le> x \<Longrightarrow> x \<le> x' \<Longrightarrow> roundMagnitude x \<le> roundMagnitude x'"
  using round53_mono [of "x * 2 ^ 1074" "x' * 2 ^ 1074"]
  by (simp add: roundMagnitude_scaled divide_right_mono)

lemma roundMagnitude_idem: "0 \<le> x \<Longrightarrow> roundMagnitude (roundMagnitude x) = roundMagnitude x"
  using round53_idem [of "x * 2 ^ 1074"] by (simp add: roundMagnitude_scaled)

lemma roundMagnitude_0: "roundMagnitude 0 = 0"
  using round53_representable [of 0 0] by (simp add: roundMagnitude_scaled)

lemma round64_0: "round64 0 = 0"
  by (simp add: round64_def roundMagnitude_0)

lemma round64_minus: "round64 (- x) = - round64 x"
  by (cases "x = 0") (auto simp: round64_def roundMagnitude_0)

lemma round64_mono:
  assumes "x \<le> x'"
  shows "round64 x \<le> round64 x'"
proof -
  consider "0 \<le> x" | "x' < 0" | "x < 0" "0 \<le> x'"
    by linarith
  then show ?thesis
  proof cases
    case 1
    then show ?thesis
      using assms roundMagnitude_mono [of x x'] by (simp add: round64_def)
  next
    case 2
    then show ?thesis
      using assms roundMagnitude_mono [of "- x'" "- x"] by (simp add: round64_def)
  next
    case 3
    then show ?thesis
      using roundMagnitude_nonneg [of "- x"] roundMagnitude_nonneg [of x']
      by (simp add: round64_def)
  qed
qed

lemma round64_idem: "round64 (round64 x) = round64 x"
proof (cases "x < 0")
  case True
  then have m: "0 \<le> roundMagnitude (- x)"
    by (simp add: roundMagnitude_nonneg)
  have "round64 (- roundMagnitude (- x)) = - round64 (roundMagnitude (- x))"
    by (rule round64_minus)
  also have "round64 (roundMagnitude (- x)) = roundMagnitude (- x)"
    using m True roundMagnitude_idem [of "- x"] by (simp add: round64_def)
  finally show ?thesis
    using True by (simp add: round64_def)
next
  case False
  then show ?thesis
    using roundMagnitude_nonneg [of x] roundMagnitude_idem [of x] by (simp add: round64_def)
qed

lemma round64_at:
  assumes "0 \<le> x" and "k \<le> 1074"
    and "k = 1074 \<or> 2 ^ 52 \<le> x * 2 ^ k" and "x * 2 ^ k < 2 ^ 53"
  shows "round64 x = of_int (roundHalfEven (x * 2 ^ k)) / 2 ^ k"
proof -
  obtain j where j: "1074 = k + j"
    using assms(2) by (auto simp: le_iff_add)
  have y: "x * 2 ^ 1074 = x * 2 ^ k * 2 ^ j"
    unfolding j by (simp add: power_add)
  have "round53 (x * 2 ^ k * 2 ^ j) = roundHalfEven (x * 2 ^ k * 2 ^ j / 2 ^ j) * 2 ^ j"
  proof (rule round53_at)
    show "j = 0 \<or> 2 ^ (52 + j) \<le> x * 2 ^ k * 2 ^ j"
      using assms(3) j by (auto simp: power_add)
    show "x * 2 ^ k * 2 ^ j < 2 ^ (53 + j)"
      using assms(4) by (simp add: power_add)
  qed
  then have "round53 (x * 2 ^ 1074) = roundHalfEven (x * 2 ^ k) * 2 ^ j"
    unfolding y by simp
  then have "roundMagnitude x = of_int (roundHalfEven (x * 2 ^ k) * 2 ^ j) / (2 ^ k * 2 ^ j)"
    unfolding roundMagnitude_scaled j by (simp add: power_add)
  then show ?thesis
    using assms(1) by (simp add: round64_def)
qed

subsection \<open>The blend on doubles\<close>

lemma finite64_Some_iff: "finite64 x = Some r \<longleftrightarrow> r = round64 x \<and> \<bar>round64 x\<bar> < 2 ^ 1024"
  by (auto simp: finite64_def Let_def)

lemma finite64_None_iff: "finite64 x = None \<longleftrightarrow> \<not> \<bar>round64 x\<bar> < 2 ^ 1024"
  by (simp add: finite64_def Let_def)

lemma isDouble_iff: "isDouble x \<longleftrightarrow> round64 x = x \<and> \<bar>x\<bar> < 2 ^ 1024"
  by (auto simp: isDouble_def finite64_Some_iff)

lemma isDouble_0: "isDouble 0"
  by (simp add: isDouble_iff round64_0)

lemma finite64_isDouble: "finite64 x = Some r \<Longrightarrow> isDouble r"
  by (auto simp: finite64_Some_iff isDouble_iff round64_idem)

lemma finite64_of_isDouble: "isDouble x \<Longrightarrow> finite64 x = Some x"
  by (simp add: isDouble_def)

lemma blend64_Some_iff:
  "blend64 p c f = Some b \<longleftrightarrow>
     (\<exists>d e. finite64 (c - p) = Some d \<and> finite64 (d * f) = Some e \<and> finite64 (p + e) = Some b)"
  by (auto simp: blend64_def split: option.splits)

lemma blend64_factor_0:
  assumes "isDouble p" and "finite64 (c - p) \<noteq> None"
  shows "blend64 p c 0 = Some p"
  using assms isDouble_0
  by (auto simp: blend64_def isDouble_def split: option.splits)

lemma blend64_factor_1:
  "blend64 p c 1 = (case finite64 (c - p) of None \<Rightarrow> None | Some d \<Rightarrow> finite64 (p + d))"
proof (cases "finite64 (c - p)")
  case None
  then show ?thesis
    by (simp add: blend64_def)
next
  case (Some d)
  then have "finite64 d = Some d"
    using finite64_isDouble finite64_of_isDouble by blast
  then show ?thesis
    using Some by (simp add: blend64_def)
qed

lemma blend64_factor_1_exact:
  assumes "isDouble c" and "isDouble (c - p)"
  shows "blend64 p c 1 = Some c"
  using assms by (simp add: blend64_factor_1 isDouble_def)

lemma blend64_same: "isDouble p \<Longrightarrow> blend64 p p f = Some p"
  using isDouble_0 by (simp add: blend64_def isDouble_def)

lemma interpolate64_Some_iff:
  "interpolateZoomState64 target (Some previous) (Some factor) = Some blended \<longleftrightarrow>
     blend64 (zoom previous) (zoom target) factor = Some (zoom blended) \<and>
     blend64 (centerX previous) (centerX target) factor = Some (centerX blended) \<and>
     blend64 (centerY previous) (centerY target) factor = Some (centerY blended)"
  by (cases blended) (auto simp: interpolateZoomState64_def split: option.splits)

lemma blend64_towards:
  assumes p: "isDouble p" and f: "0 \<le> f" "f \<le> 1" and full: "blend64 p c 1 = Some full"
  shows "\<exists>b. blend64 p c f = Some b \<and> min p full \<le> b \<and> b \<le> max p full"
    and "p \<le> c \<Longrightarrow> p \<le> full" and "c \<le> p \<Longrightarrow> full \<le> p"
proof -
  obtain d where d: "finite64 (c - p) = Some d" and pd: "finite64 (p + d) = Some full"
    using full unfolding blend64_factor_1 by (auto split: option.splits)
  have dv: "d = round64 (c - p)" and db: "\<bar>d\<bar> < 2 ^ 1024"
    using d by (simp_all add: finite64_Some_iff)
  have dd: "round64 d = d"
    unfolding dv by (rule round64_idem)
  have fv: "full = round64 (p + d)" and fb: "\<bar>full\<bar> < 2 ^ 1024"
    using pd by (simp_all add: finite64_Some_iff)
  have pp: "round64 p = p" and pb: "\<bar>p\<bar> < 2 ^ 1024"
    using p by (simp_all add: isDouble_iff)
  define e where "e = round64 (d * f)"
  define b where "b = round64 (p + e)"
  have up: "p \<le> b \<and> b \<le> full \<and> 0 \<le> e \<and> e \<le> d \<and> p \<le> full" if "p \<le> c"
  proof -
    have "round64 0 \<le> round64 (c - p)"
      using that by (intro round64_mono) simp
    then have d0: "0 \<le> d"
      by (simp add: round64_0 dv)
    have "d * f \<le> d * 1"
      using d0 f(2) by (intro mult_left_mono) simp_all
    then have "round64 (d * f) \<le> round64 d"
      by (intro round64_mono) simp
    then have ed: "e \<le> d"
      by (simp add: e_def dd)
    have "round64 0 \<le> round64 (d * f)"
      using d0 f(1) by (intro round64_mono) simp
    then have e0: "0 \<le> e"
      by (simp add: round64_0 e_def)
    have "round64 p \<le> round64 (p + e)" "round64 (p + e) \<le> round64 (p + d)"
      "round64 p \<le> round64 (p + d)"
      using e0 ed d0 by (auto intro!: round64_mono)
    then show ?thesis
      using e0 ed by (simp add: pp b_def fv)
  qed
  have down: "full \<le> b \<and> b \<le> p \<and> d \<le> e \<and> e \<le> 0 \<and> full \<le> p" if "c \<le> p"
  proof -
    have "round64 (c - p) \<le> round64 0"
      using that by (intro round64_mono) simp
    then have d0: "d \<le> 0"
      by (simp add: round64_0 dv)
    have "(- d) * f \<le> (- d) * 1"
      using d0 f(2) by (intro mult_left_mono) simp_all
    then have "round64 d \<le> round64 (d * f)"
      by (intro round64_mono) simp
    then have ed: "d \<le> e"
      by (simp add: e_def dd)
    have "d * f \<le> 0"
      using d0 f(1) by (simp add: mult_nonpos_nonneg)
    then have "round64 (d * f) \<le> round64 0"
      by (rule round64_mono)
    then have e0: "e \<le> 0"
      by (simp add: round64_0 e_def)
    have "round64 (p + e) \<le> round64 p" "round64 (p + d) \<le> round64 (p + e)"
      "round64 (p + d) \<le> round64 p"
      using e0 ed d0 by (auto intro!: round64_mono)
    then show ?thesis
      using e0 ed by (simp add: pp b_def fv)
  qed
  have fin: "\<bar>e\<bar> < 2 ^ 1024 \<and> \<bar>b\<bar> < 2 ^ 1024 \<and> min p full \<le> b \<and> b \<le> max p full"
  proof (cases "p \<le> c")
    case True
    show ?thesis
      using up [OF True] db fb pb by (intro conjI; linarith)
  next
    case False
    then have "c \<le> p"
      by simp
    from down [OF this] show ?thesis
      using db fb pb by (intro conjI; linarith)
  qed
  then have eb: "\<bar>e\<bar> < 2 ^ 1024" and bb: "\<bar>b\<bar> < 2 ^ 1024"
    and between: "min p full \<le> b \<and> b \<le> max p full"
    by simp_all
  have "finite64 (d * f) = Some e" and "finite64 (p + e) = Some b"
    using eb bb by (simp_all add: finite64_Some_iff e_def b_def)
  then have "blend64 p c f = Some b"
    using d by (simp add: blend64_def)
  then show "\<exists>b. blend64 p c f = Some b \<and> min p full \<le> b \<and> b \<le> max p full"
    using between by blast
  show "p \<le> c \<Longrightarrow> p \<le> full"
    using up by simp
  show "c \<le> p \<Longrightarrow> full \<le> p"
    using down by simp
qed

subsection \<open>Factors below one\<close>

lemma roundHalfEven_below:
  assumes "q < of_int m + 1/2"
  shows "roundHalfEven q \<le> m"
proof (cases "\<lfloor>q\<rfloor> = m")
  case True
  then have "q - of_int \<lfloor>q\<rfloor> < 1/2"
    using assms by simp
  then show ?thesis
    using True by (simp add: roundHalfEven_def Let_def)
next
  case False
  have "q < of_int (m + 1)"
    using assms by simp
  then have "\<lfloor>q\<rfloor> < m + 1"
    by (simp only: floor_less_iff)
  then have "\<lfloor>q\<rfloor> + 1 \<le> m"
    using False by simp
  then show ?thesis
    using roundHalfEven_bounds(2) [of q] by linarith
qed

lemma roundHalfEven_up:
  assumes "q < of_int (roundHalfEven q)"
  shows "roundHalfEven q = \<lfloor>q\<rfloor> + 1"
proof -
  have "of_int \<lfloor>q\<rfloor> \<le> q"
    by simp
  then have "(of_int \<lfloor>q\<rfloor> :: real) < of_int (roundHalfEven q)"
    using assms by linarith
  then have "\<lfloor>q\<rfloor> < roundHalfEven q"
    by (simp only: of_int_less_iff)
  then show ?thesis
    using roundHalfEven_bounds(2) [of q] by linarith
qed

lemma round53_shrink:
  fixes Y :: int and f :: real
  assumes "0 \<le> Y" and "0 \<le> f" and "f \<le> 1 - 1 / 2 ^ 53"
  shows "round53 (of_int (round53 (of_int Y)) * f) \<le> Y"
proof (cases "round53 (of_int Y) \<le> Y")
  case True
  have D0: "0 \<le> round53 (of_int Y :: real)"
    using assms(1) by (intro round53_nonneg) simp
  have "of_int (round53 (of_int Y)) * f \<le> of_int (round53 (of_int Y)) * (1::real)"
    using D0 assms(3) by (intro mult_left_mono) simp_all
  then have "round53 (of_int (round53 (of_int Y)) * f) \<le> round53 (of_int (round53 (of_int Y :: real)))"
    using D0 assms(2) by (intro round53_mono) simp_all
  also have "\<dots> = round53 (of_int Y :: real)"
    using assms(1) by (intro round53_idem) simp
  finally show ?thesis
    using True by linarith
next
  case False
  define j where "j = nat (bitlen \<lfloor>of_int Y :: real\<rfloor> - 53)"
  define q where "q = (of_int Y :: real) / 2 ^ j"
  define n where "n = roundHalfEven q"
  define m where "m = \<lfloor>q\<rfloor>"
  have D: "round53 (of_int Y :: real) = n * 2 ^ j"
    by (simp add: round53_def Let_def j_def n_def q_def)
  have j0: "0 < j"
  proof (rule ccontr)
    assume "\<not> 0 < j"
    then have "round53 (of_int Y :: real) = Y"
      using D by (simp add: n_def q_def roundHalfEven_of_int)
    then show False
      using False by simp
  qed
  have low: "2 ^ (52 + j) \<le> (of_int Y :: real)"
    using dropped_lower [OF j_def j0] .
  have up: "(of_int Y :: real) < 2 ^ (53 + j)"
    using dropped_upper [OF j_def] .
  have "(of_int Y :: real) < of_int (n * 2 ^ j)"
    using False D by (metis not_le of_int_less_iff)
  then have "q < of_int n"
    by (simp add: q_def divide_less_eq)
  then have nm: "n = m + 1"
    unfolding n_def m_def by (rule roundHalfEven_up)
  have "of_int (2 ^ 52) \<le> q"
    using low by (simp add: q_def le_divide_eq power_add)
  then have m_low: "2 ^ 52 \<le> m"
    unfolding m_def by (simp only: le_floor_iff)
  have "q < of_int (2 ^ 53)"
    using up by (simp add: q_def divide_less_eq power_add)
  then have m_up: "m < 2 ^ 53"
    unfolding m_def by (simp only: floor_less_iff)
  have "of_int m \<le> q"
    by (simp add: m_def)
  then have mY: "of_int (m * 2 ^ j) \<le> (of_int Y :: real)"
    by (simp add: q_def le_divide_eq)
  define z where "z = of_int (n * 2 ^ j) * f"
  have z0: "0 \<le> z"
    using m_low nm assms(2) by (simp add: z_def)
  have "(of_int n :: real) / 2 ^ 53 > 1 / 2"
  proof -
    have "(2::int) ^ 52 < n"
      using m_low nm by simp
    then have "(2::real) ^ 52 < of_int n"
      by (metis of_int_less_iff of_int_numeral of_int_power)
    then show ?thesis
      by (simp add: less_divide_eq)
  qed
  moreover have "of_int n * f \<le> of_int n * (1 - 1 / 2 ^ 53 :: real)"
    using assms(3) m_low nm by (intro mult_left_mono) simp_all
  ultimately have nf: "of_int n * f < of_int m + (1/2 :: real)"
    using nm by (simp add: algebra_simps)
  have zq: "z / 2 ^ j = of_int n * f"
    by (simp add: z_def)
  have "round53 z \<le> m * 2 ^ j"
  proof (cases "z < 2 ^ (52 + j)")
    case True
    have "round53 z \<le> round53 (of_int (2 ^ 52 * 2 ^ j))"
      using z0 True by (intro round53_mono) (simp_all add: power_add)
    also have "\<dots> = 2 ^ 52 * 2 ^ j"
      by (intro round53_representable) simp_all
    also have "\<dots> \<le> m * 2 ^ j"
      using m_low by (simp add: mult_right_mono)
    finally show ?thesis .
  next
    case False
    have "z / 2 ^ j < of_int (2 ^ 53)"
      using nf m_up unfolding zq by simp
    then have zu: "z < 2 ^ (53 + j)"
      by (simp add: divide_less_eq power_add)
    have "round53 z = roundHalfEven (z / 2 ^ j) * 2 ^ j"
      using False zu by (intro round53_at) simp_all
    moreover have "roundHalfEven (z / 2 ^ j) \<le> m"
      unfolding zq using nf by (rule roundHalfEven_below)
    ultimately show ?thesis
      by (simp add: mult_right_mono)
  qed
  then have "(of_int (round53 z) :: real) \<le> of_int (m * 2 ^ j)"
    by (simp only: of_int_le_iff)
  then have "(of_int (round53 z) :: real) \<le> of_int Y"
    using mY by linarith
  then show ?thesis
    unfolding z_def D by (simp only: of_int_le_iff)
qed

lemma isDouble_scaled:
  assumes "isDouble x"
  shows "\<exists>Y::int. x * 2 ^ 1074 = of_int Y"
proof -
  have r: "round64 x = x"
    using assms by (simp add: isDouble_iff)
  show ?thesis
  proof (cases "x < 0")
    case True
    then have "x = - (of_int (round53 (- x * 2 ^ 1074)) / 2 ^ 1074)"
      using r by (simp add: round64_def roundMagnitude_def)
    then have "x * 2 ^ 1074 = of_int (- round53 (- x * 2 ^ 1074))"
      by (simp add: field_simps)
    then show ?thesis ..
  next
    case False
    then have "x = of_int (round53 (x * 2 ^ 1074)) / 2 ^ 1074"
      using r by (simp add: round64_def roundMagnitude_def)
    then have "x * 2 ^ 1074 = of_int (round53 (x * 2 ^ 1074))"
      by (simp add: field_simps)
    then show ?thesis ..
  qed
qed

lemma round64_nonneg: "0 \<le> x \<Longrightarrow> 0 \<le> round64 x"
  using round64_mono [of 0 x] by (simp add: round64_0)

lemma round64_shrink:
  assumes "0 \<le> x" and "x * 2 ^ 1074 = of_int Y" and "0 \<le> f" and "f \<le> 1 - 1 / 2 ^ 53"
  shows "round64 (round64 x * f) \<le> x"
proof -
  define N :: real where "N = 2 ^ 1074"
  have N0: "0 < N"
    by (simp add: N_def)
  have rm: "roundMagnitude u = of_int (round53 (u * N)) / N" for u
    by (simp only: roundMagnitude_def N_def)
  have xY: "x * N = of_int Y"
    using assms(2) by (simp only: N_def)
  have Y0: "0 \<le> Y"
  proof -
    have "0 \<le> x * N"
      using assms(1) N0 by simp
    then have "(0::real) \<le> of_int Y"
      by (simp only: xY)
    then show ?thesis
      by simp
  qed
  have "round64 x = roundMagnitude x"
    using assms(1) by (simp add: round64_def)
  then have rx: "round64 x = of_int (round53 (of_int Y)) / N"
    by (simp only: rm xY)
  have prod: "round64 x * f * N = of_int (round53 (of_int Y)) * f"
    using N0 by (simp add: rx)
  have "0 \<le> round64 x * f"
    using round64_nonneg [OF assms(1)] assms(3) by simp
  then have "round64 (round64 x * f) = roundMagnitude (round64 x * f)"
    by (simp add: round64_def)
  also have "\<dots> = of_int (round53 (of_int (round53 (of_int Y)) * f)) / N"
    by (simp only: rm prod)
  also have "\<dots> \<le> of_int Y / N"
    using round53_shrink [OF Y0 assms(3,4)] N0 by (simp add: divide_right_mono)
  also have "\<dots> = x"
    using N0 by (simp add: xY [symmetric])
  finally show ?thesis .
qed

lemma round64_shrink_neg:
  assumes "x \<le> 0" and "x * 2 ^ 1074 = of_int Y" and "0 \<le> f" and "f \<le> 1 - 1 / 2 ^ 53"
  shows "x \<le> round64 (round64 x * f)"
proof -
  have x0: "0 \<le> - x"
    using assms(1) by simp
  have "- (x * 2 ^ 1074) = - real_of_int Y"
    by (simp only: assms(2))
  then have a: "(- x) * 2 ^ 1074 = of_int (- Y)"
    by (simp only: mult_minus_left of_int_minus)
  have "round64 (round64 (- x) * f) \<le> - x"
    using x0 a assms(3,4) by (rule round64_shrink)
  moreover have "round64 (round64 x * f) = - round64 (round64 (- x) * f)"
    using round64_minus [of "round64 (- x) * f"] by (simp add: round64_minus)
  ultimately show ?thesis
    by simp
qed

lemma blend64_within:
  assumes p: "isDouble p" and c: "isDouble c" and f: "0 \<le> f" "f \<le> 1 - 1 / 2 ^ 53"
    and fin: "finite64 (c - p) \<noteq> None"
  shows "\<exists>b. blend64 p c f = Some b \<and> min p c \<le> b \<and> b \<le> max p c"
proof -
  obtain P C :: int where P: "p * 2 ^ 1074 = of_int P" and C: "c * 2 ^ 1074 = of_int C"
    using isDouble_scaled [OF p] isDouble_scaled [OF c] by blast
  have x: "(c - p) * 2 ^ 1074 = of_int (C - P)"
    using P C by (simp add: algebra_simps)
  define d where "d = round64 (c - p)"
  define e where "e = round64 (d * f)"
  define b where "b = round64 (p + e)"
  have db: "\<bar>d\<bar> < 2 ^ 1024"
    using fin by (simp add: finite64_None_iff d_def)
  have dd: "round64 d = d"
    unfolding d_def by (rule round64_idem)
  have pp: "round64 p = p" and pb: "\<bar>p\<bar> < 2 ^ 1024"
    using p by (simp_all add: isDouble_iff)
  have cc: "round64 c = c" and cb: "\<bar>c\<bar> < 2 ^ 1024"
    using c by (simp_all add: isDouble_iff)
  have f1: "f \<le> 1"
  proof -
    have "(1 - 1 / 2 ^ 53 :: real) \<le> 1"
      by simp
    then show ?thesis
      using f(2) by linarith
  qed
  have fin': "\<bar>e\<bar> < 2 ^ 1024 \<and> \<bar>b\<bar> < 2 ^ 1024 \<and> min p c \<le> b \<and> b \<le> max p c"
  proof (cases "p \<le> c")
    case True
    then have x0: "0 \<le> c - p"
      by simp
    have d0: "0 \<le> d"
      unfolding d_def using x0 by (rule round64_nonneg)
    have "0 \<le> d * f"
      using d0 f(1) by simp
    then have e0: "0 \<le> e"
      unfolding e_def by (rule round64_nonneg)
    have "d * f \<le> d * 1"
      using d0 f1 by (intro mult_left_mono) simp_all
    then have "round64 (d * f) \<le> round64 d"
      by (intro round64_mono) simp
    then have ed: "e \<le> d"
      by (simp add: e_def dd)
    have ex: "e \<le> c - p"
      unfolding e_def d_def using x0 x f by (rule round64_shrink)
    have "round64 p \<le> round64 (p + e)" "round64 (p + e) \<le> round64 c"
      using e0 ex by (auto intro!: round64_mono)
    then have "p \<le> b" "b \<le> c"
      by (simp_all add: b_def pp cc)
    then show ?thesis
      using e0 ed db pb cb by (intro conjI; linarith)
  next
    case False
    then have x0: "c - p \<le> 0"
      by simp
    have "round64 (c - p) \<le> round64 0"
      using x0 by (rule round64_mono)
    then have d0: "d \<le> 0"
      by (simp add: d_def round64_0)
    have "d * f \<le> 0"
      using d0 f(1) by (simp add: mult_nonpos_nonneg)
    then have "round64 (d * f) \<le> round64 0"
      by (rule round64_mono)
    then have e0: "e \<le> 0"
      by (simp add: e_def round64_0)
    have "(- d) * f \<le> (- d) * 1"
      using d0 f1 by (intro mult_left_mono) simp_all
    then have "round64 d \<le> round64 (d * f)"
      by (intro round64_mono) simp
    then have ed: "d \<le> e"
      by (simp add: e_def dd)
    have ex: "c - p \<le> e"
      unfolding e_def d_def using x0 x f by (rule round64_shrink_neg)
    have "round64 (p + e) \<le> round64 p" "round64 c \<le> round64 (p + e)"
      using e0 ex by (auto intro!: round64_mono)
    then have "b \<le> p" "c \<le> b"
      by (simp_all add: b_def pp cc)
    then show ?thesis
      using e0 ed db pb cb by (intro conjI; linarith)
  qed
  have "finite64 (c - p) = Some d" "finite64 (d * f) = Some e" "finite64 (p + e) = Some b"
    using db fin' by (simp_all add: finite64_Some_iff d_def e_def b_def)
  then have "blend64 p c f = Some b"
    by (simp add: blend64_def)
  then show ?thesis
    using fin' by blast
qed

lemma double_below_one:
  assumes "isDouble f" and "f < 1"
  shows "f \<le> 1 - 1 / 2 ^ 53"
proof (cases "f < 1/2")
  case True
  have "(1/2 :: real) \<le> 1 - 1 / 2 ^ 53"
    by simp
  then show ?thesis
    using True by linarith
next
  case False
  define y where "y = f * 2 ^ 1074"
  have r: "round64 f = f"
    using assms(1) by (simp add: isDouble_iff)
  then have "of_int (round53 y) / 2 ^ 1074 = f"
    using False by (simp add: round64_def roundMagnitude_def y_def)
  then have yr: "of_int (round53 y) = y"
    by (simp add: y_def field_simps)
  have "(2::real) ^ 1073 \<le> y"
    using False by (simp add: y_def)
  then have low: "(2::real) ^ (52 + 1021) \<le> y"
    by simp
  have "y < 2 ^ 1074"
    using assms(2) by (simp add: y_def)
  then have up: "y < 2 ^ (53 + 1021)"
    by simp
  have at: "round53 y = roundHalfEven (y / 2 ^ 1021) * 2 ^ 1021"
    using low up by (intro round53_at) simp_all
  define k where "k = roundHalfEven (y / 2 ^ 1021)"
  have yk: "y = of_int k * 2 ^ 1021"
    using yr at by (simp add: k_def)
  then have "of_int k * (2::real) ^ 1021 < 2 ^ 53 * 2 ^ 1021"
    using up by (simp add: power_add)
  then have "(of_int k :: real) < of_int (2 ^ 53)"
    by simp
  then have "k < 2 ^ 53"
    by (simp only: of_int_less_iff)
  then have "k \<le> 2 ^ 53 - 1"
    by simp
  then have "(of_int k :: real) \<le> of_int (2 ^ 53 - 1)"
    by (simp only: of_int_le_iff)
  then have "(of_int k :: real) \<le> 2 ^ 53 - 1"
    by simp
  then have "of_int k * (2::real) ^ 1021 \<le> (2 ^ 53 - 1) * 2 ^ 1021"
    by (intro mult_right_mono) simp_all
  then have "f * 2 ^ 1074 \<le> (2 ^ 53 - 1) * (2::real) ^ 1021"
    using yk by (simp add: y_def)
  also have "\<dots> = (1 - 1 / 2 ^ 53) * 2 ^ 1074"
    by (simp add: field_simps)
  finally show ?thesis
    by simp
qed

subsection \<open>Doubles at hand\<close>

lemma isDouble_dyadic:
  assumes "\<bar>x\<bar> = of_int n / 2 ^ k" and "0 \<le> n" and "n < 2 ^ 53" and "k \<le> 1074"
  shows "isDouble x"
proof -
  obtain j where j: "1074 = k + j"
    using assms(4) by (auto simp: le_iff_add)
  have "\<bar>x\<bar> * 2 ^ 1074 = of_int (n * 2 ^ j)"
    unfolding assms(1) j by (simp add: power_add)
  then have "roundMagnitude \<bar>x\<bar> = of_int (n * 2 ^ j) / 2 ^ 1074"
    unfolding roundMagnitude_scaled using round53_representable [of n j] assms(2,3) by simp
  also have "\<dots> = \<bar>x\<bar>"
    unfolding assms(1) j by (simp add: power_add)
  finally have m: "roundMagnitude \<bar>x\<bar> = \<bar>x\<bar>" .
  have r: "round64 x = x"
    using m by (cases "x < 0") (simp_all add: round64_def abs_if)
  have "of_int n / 2 ^ k \<le> (of_int n :: real)"
    using assms(2) by (simp add: divide_le_eq mult_le_cancel_left1)
  also have "\<dots> < 2 ^ 53"
    using assms(3) by simp
  also have "\<dots> < (2::real) ^ 1024"
    by simp
  finally show ?thesis
    using r by (simp add: isDouble_iff assms(1))
qed

lemma double_examples:
  "isDouble 1" "isDouble 2" "isDouble (1/2)" "isDouble (1/4)" "isDouble (3/4)" "isDouble (3/2)"
  "isDouble (- (1/4))"
  "isDouble (5404319552844595 / 2 ^ 54)" "isDouble (8646911284551352 / 2 ^ 58)"
  by (rule isDouble_dyadic [where n = 1 and k = 0], simp_all)
     (rule isDouble_dyadic [where n = 2 and k = 0], simp_all,
      rule isDouble_dyadic [where n = 1 and k = 1], simp_all,
      rule isDouble_dyadic [where n = 1 and k = 2], simp_all,
      rule isDouble_dyadic [where n = 3 and k = 2], simp_all,
      rule isDouble_dyadic [where n = 3 and k = 1], simp_all,
      rule isDouble_dyadic [where n = 1 and k = 2], simp_all,
      rule isDouble_dyadic [where n = 5404319552844595 and k = 54], simp_all,
      rule isDouble_dyadic [where n = 8646911284551352 and k = 58], simp_all)

lemma finite64_at:
  assumes "0 \<le> x" and "k \<le> 1074"
    and "k = 1074 \<or> 2 ^ 52 \<le> x * 2 ^ k" and "x * 2 ^ k < 2 ^ 53"
  shows "finite64 x = Some (of_int (roundHalfEven (x * 2 ^ k)) / 2 ^ k)"
proof -
  have r: "round64 x = of_int (roundHalfEven (x * 2 ^ k)) / 2 ^ k"
    using assms by (rule round64_at)
  have "roundHalfEven (x * 2 ^ k) \<le> roundHalfEven (of_int (2 ^ 53))"
    using assms(4) by (intro roundHalfEven_mono) simp
  then have hi: "roundHalfEven (x * 2 ^ k) \<le> 2 ^ 53"
    unfolding roundHalfEven_of_int .
  have "roundHalfEven (of_int 0) \<le> roundHalfEven (x * 2 ^ k)"
    using assms(1) by (intro roundHalfEven_mono) simp
  then have lo: "0 \<le> roundHalfEven (x * 2 ^ k)"
    unfolding roundHalfEven_of_int .
  have "(of_int (roundHalfEven (x * 2 ^ k)) :: real) \<le> of_int (2 ^ 53)"
    using hi by (simp only: of_int_le_iff)
  then have "(of_int (roundHalfEven (x * 2 ^ k)) :: real) < 2 ^ 1024"
    by simp
  moreover have "(of_int (roundHalfEven (x * 2 ^ k)) :: real) / 2 ^ k
                   \<le> of_int (roundHalfEven (x * 2 ^ k))"
    using lo by (simp add: divide_le_eq mult_le_cancel_left1)
  moreover have "0 \<le> (of_int (roundHalfEven (x * 2 ^ k)) :: real) / 2 ^ k"
    using lo by simp
  ultimately have "\<bar>round64 x\<bar> < 2 ^ 1024"
    unfolding r by linarith
  then show ?thesis
    using r by (simp add: finite64_Some_iff)
qed

lemma blend_003_03:
  "blend64 (8646911284551352 / 2 ^ 58) (5404319552844595 / 2 ^ 54) 1
     = Some (5404319552844596 / 2 ^ 54)"
proof -
  have d: "finite64 (5404319552844595 / 2 ^ 54 - 8646911284551352 / 2 ^ 58)
             = Some (4863887597560136 / 2 ^ 54)"
    by (subst finite64_at [where k = 54]) (simp_all add: roundHalfEven_def)
  have s: "finite64 (8646911284551352 / 2 ^ 58 + 4863887597560136 / 2 ^ 54)
             = Some (5404319552844596 / 2 ^ 54)"
    by (subst finite64_at [where k = 54]) (simp_all add: roundHalfEven_def)
  show ?thesis
    unfolding blend64_factor_1 d using s by simp
qed

lemma doubleState_003_03: "doubleState target03" "doubleState previous003"
  using double_examples by (simp_all add: doubleState_def target03_def previous003_def)

lemma interpolate_003_03:
  "interpolateZoomState64 target03 (Some previous003) (Some 1)
     = Some \<lparr>zoom = 1, centerX = 5404319552844596 / 2 ^ 54, centerY = 1 / 2\<rparr>"
  unfolding interpolate64_Some_iff
  using blend_003_03 double_examples
  by (simp add: target03_def previous003_def blend64_same)

subsection \<open>What the smoother returns\<close>

text \<open>
  Claim C3, as amended. On states whose fields are doubles, each field of the result is
  \<open>previous + (target - previous) * factor\<close> evaluated in double arithmetic: the
  difference, the product and the sum are each rounded to the nearest double, and the
  result is a state exactly when the three operations stay finite in each field. With no
  previous state the result is the target, whatever the factor, given or omitted. With
  the factor 0 the result is the previous state, when the three differences are finite.
  With the factor 1 each field is the rounded sum of the previous field and the rounded
  difference; the result is the target when the three differences
  \<open>target - previous\<close> are themselves doubles, that is, are computed without rounding.
\<close>

theorem interpolateZoomState64_blend:
  assumes "doubleState target" and "doubleState previous"
  shows
   "(interpolateZoomState64 target (Some previous) (Some factor) = Some blended \<longleftrightarrow>
       blend64 (zoom previous) (zoom target) factor = Some (zoom blended) \<and>
       blend64 (centerX previous) (centerX target) factor = Some (centerX blended) \<and>
       blend64 (centerY previous) (centerY target) factor = Some (centerY blended))
    \<and> (blend64 p c f = Some b \<longleftrightarrow>
         (\<exists>d e. finite64 (c - p) = Some d \<and> finite64 (d * f) = Some e \<and>
                finite64 (p + e) = Some b))
    \<and> interpolateZoomState64 target None anyFactor = Some target
    \<and> (finite64 (zoom target - zoom previous) \<noteq> None \<and>
        finite64 (centerX target - centerX previous) \<noteq> None \<and>
        finite64 (centerY target - centerY previous) \<noteq> None \<longrightarrow>
          interpolateZoomState64 target (Some previous) (Some 0) = Some previous)
    \<and> (isDouble (zoom target - zoom previous) \<and>
        isDouble (centerX target - centerX previous) \<and>
        isDouble (centerY target - centerY previous) \<longrightarrow>
          interpolateZoomState64 target (Some previous) (Some 1) = Some target)
    \<and> blend64 p c 1 = (case finite64 (c - p) of None \<Rightarrow> None | Some d \<Rightarrow> finite64 (p + d))"
proof (intro conjI impI)
  show "interpolateZoomState64 target (Some previous) (Some factor) = Some blended \<longleftrightarrow>
       blend64 (zoom previous) (zoom target) factor = Some (zoom blended) \<and>
       blend64 (centerX previous) (centerX target) factor = Some (centerX blended) \<and>
       blend64 (centerY previous) (centerY target) factor = Some (centerY blended)"
    by (rule interpolate64_Some_iff)
  show "blend64 p c f = Some b \<longleftrightarrow>
         (\<exists>d e. finite64 (c - p) = Some d \<and> finite64 (d * f) = Some e \<and>
                finite64 (p + e) = Some b)"
    by (rule blend64_Some_iff)
  show "interpolateZoomState64 target None anyFactor = Some target"
    by (simp add: interpolateZoomState64_def)
  show "blend64 p c 1 = (case finite64 (c - p) of None \<Rightarrow> None | Some d \<Rightarrow> finite64 (p + d))"
    by (rule blend64_factor_1)
next
  assume "finite64 (zoom target - zoom previous) \<noteq> None \<and>
        finite64 (centerX target - centerX previous) \<noteq> None \<and>
        finite64 (centerY target - centerY previous) \<noteq> None"
  then have "blend64 (zoom previous) (zoom target) 0 = Some (zoom previous)"
    "blend64 (centerX previous) (centerX target) 0 = Some (centerX previous)"
    "blend64 (centerY previous) (centerY target) 0 = Some (centerY previous)"
    using assms(2) by (simp_all add: doubleState_def blend64_factor_0)
  then show "interpolateZoomState64 target (Some previous) (Some 0) = Some previous"
    unfolding interpolate64_Some_iff by simp
next
  assume "isDouble (zoom target - zoom previous) \<and>
        isDouble (centerX target - centerX previous) \<and>
        isDouble (centerY target - centerY previous)"
  then have "blend64 (zoom previous) (zoom target) 1 = Some (zoom target)"
    "blend64 (centerX previous) (centerX target) 1 = Some (centerX target)"
    "blend64 (centerY previous) (centerY target) 1 = Some (centerY target)"
    using assms(1) by (simp_all add: doubleState_def blend64_factor_1_exact)
  then show "interpolateZoomState64 target (Some previous) (Some 1) = Some target"
    unfolding interpolate64_Some_iff by simp
qed

text \<open>
  From the state (1, 0.5, 0.75) to the target (2, 0.25, 0.75) the three differences
  1, -0.25 and 0 are doubles.
\<close>

theorem interpolateZoomState64_blend_witness:
  "interpolateZoomState64 targetQuarter (Some previousHalf) (Some 1) = Some targetQuarter
   \<and> interpolateZoomState64 targetQuarter (Some previousHalf) (Some 0) = Some previousHalf
   \<and> interpolateZoomState64 targetQuarter None None = Some targetQuarter"
proof -
  have s: "doubleState targetQuarter" "doubleState previousHalf"
    using double_examples by (simp_all add: doubleState_def targetQuarter_def previousHalf_def)
  have exact: "isDouble (zoom targetQuarter - zoom previousHalf) \<and>
      isDouble (centerX targetQuarter - centerX previousHalf) \<and>
      isDouble (centerY targetQuarter - centerY previousHalf)"
    using double_examples isDouble_0 by (simp add: targetQuarter_def previousHalf_def)
  then have finite: "finite64 (zoom targetQuarter - zoom previousHalf) \<noteq> None \<and>
      finite64 (centerX targetQuarter - centerX previousHalf) \<noteq> None \<and>
      finite64 (centerY targetQuarter - centerY previousHalf) \<noteq> None"
    by (simp add: isDouble_def)
  note T = interpolateZoomState64_blend [OF s, of 0 previousHalf 0 0 0 0 None]
  have none: "interpolateZoomState64 targetQuarter None None = Some targetQuarter"
    by (rule T [THEN conjunct2, THEN conjunct2, THEN conjunct1])
  have zero: "interpolateZoomState64 targetQuarter (Some previousHalf) (Some 0) = Some previousHalf"
    by (rule T [THEN conjunct2, THEN conjunct2, THEN conjunct2, THEN conjunct1, THEN mp, OF finite])
  have one: "interpolateZoomState64 targetQuarter (Some previousHalf) (Some 1) = Some targetQuarter"
    by (rule T [THEN conjunct2, THEN conjunct2, THEN conjunct2, THEN conjunct2, THEN conjunct1,
                THEN mp, OF exact])
  show ?thesis
    by (intro conjI one zero none)
qed

text \<open>
  With the factor 1 the result need not be the target. From centerX 0.03 to the target
  centerX 0.3 the difference is half-way between two doubles and rounds to the upper
  one, and so does the sum: the code returns the centerX 0.30000000000000004, the double
  next above the target's.
\<close>

theorem interpolateZoomState_factor_one_counterexample:
  "doubleState target03 \<and> doubleState previous003
   \<and> interpolateZoomState64 target03 (Some previous003) (Some 1)
       = Some \<lparr>zoom = 1, centerX = 5404319552844596 / 2 ^ 54, centerY = 1 / 2\<rparr>
   \<and> interpolateZoomState64 target03 (Some previous003) (Some 1) \<noteq> Some target03"
  using doubleState_003_03 interpolate_003_03 by (simp add: target03_def)

text \<open>
  Claim C10, as amended. On states whose fields are doubles, with a previous state. For
  a factor that is a double, at least 0 and below 1, when the three differences
  \<open>target - previous\<close> are finite, the result is a state and each of its fields lies
  between the field of the previous state and the field of the target, both included.
  For a factor between 0 and 1, 1 included, let the result for the factor 1 be the state
  \<open>full\<close>: the result for the factor is a state, and each of its fields lies between
  the field of the previous state and the field of \<open>full\<close>; the field of \<open>full\<close> lies
  on the side of the previous field on which the target field lies, and it is the target
  field when the difference \<open>target - previous\<close> of the field is a double. A target
  equal to the previous state gives the previous state back, for any factor.
\<close>

theorem interpolateZoomState64_bounds:
  assumes "doubleState target" and "doubleState previous"
  shows
   "(isDouble factor \<and> 0 \<le> factor \<and> factor < 1 \<and>
     finite64 (zoom target - zoom previous) \<noteq> None \<and>
     finite64 (centerX target - centerX previous) \<noteq> None \<and>
     finite64 (centerY target - centerY previous) \<noteq> None \<longrightarrow>
       (\<exists>blended. interpolateZoomState64 target (Some previous) (Some factor) = Some blended
          \<and> min (zoom previous) (zoom target) \<le> zoom blended
          \<and> zoom blended \<le> max (zoom previous) (zoom target)
          \<and> min (centerX previous) (centerX target) \<le> centerX blended
          \<and> centerX blended \<le> max (centerX previous) (centerX target)
          \<and> min (centerY previous) (centerY target) \<le> centerY blended
          \<and> centerY blended \<le> max (centerY previous) (centerY target)))
    \<and> (0 \<le> factor \<and> factor \<le> 1 \<and>
        interpolateZoomState64 target (Some previous) (Some 1) = Some full \<longrightarrow>
       (\<exists>blended. interpolateZoomState64 target (Some previous) (Some factor) = Some blended
          \<and> min (zoom previous) (zoom full) \<le> zoom blended
          \<and> zoom blended \<le> max (zoom previous) (zoom full)
          \<and> min (centerX previous) (centerX full) \<le> centerX blended
          \<and> centerX blended \<le> max (centerX previous) (centerX full)
          \<and> min (centerY previous) (centerY full) \<le> centerY blended
          \<and> centerY blended \<le> max (centerY previous) (centerY full))
       \<and> (zoom previous \<le> zoom target \<longrightarrow> zoom previous \<le> zoom full)
       \<and> (zoom target \<le> zoom previous \<longrightarrow> zoom full \<le> zoom previous)
       \<and> (centerX previous \<le> centerX target \<longrightarrow> centerX previous \<le> centerX full)
       \<and> (centerX target \<le> centerX previous \<longrightarrow> centerX full \<le> centerX previous)
       \<and> (centerY previous \<le> centerY target \<longrightarrow> centerY previous \<le> centerY full)
       \<and> (centerY target \<le> centerY previous \<longrightarrow> centerY full \<le> centerY previous)
       \<and> (isDouble (zoom target - zoom previous) \<longrightarrow> zoom full = zoom target)
       \<and> (isDouble (centerX target - centerX previous) \<longrightarrow> centerX full = centerX target)
       \<and> (isDouble (centerY target - centerY previous) \<longrightarrow> centerY full = centerY target))
    \<and> interpolateZoomState64 previous (Some previous) (Some anyFactor) = Some previous"
proof (intro conjI)
  have p: "isDouble (zoom previous)" "isDouble (centerX previous)" "isDouble (centerY previous)"
    and t: "isDouble (zoom target)" "isDouble (centerX target)" "isDouble (centerY target)"
    using assms by (simp_all add: doubleState_def)
  show "interpolateZoomState64 previous (Some previous) (Some anyFactor) = Some previous"
    unfolding interpolate64_Some_iff using p by (simp add: blend64_same)
  show "isDouble factor \<and> 0 \<le> factor \<and> factor < 1 \<and>
     finite64 (zoom target - zoom previous) \<noteq> None \<and>
     finite64 (centerX target - centerX previous) \<noteq> None \<and>
     finite64 (centerY target - centerY previous) \<noteq> None \<longrightarrow>
       (\<exists>blended. interpolateZoomState64 target (Some previous) (Some factor) = Some blended
          \<and> min (zoom previous) (zoom target) \<le> zoom blended
          \<and> zoom blended \<le> max (zoom previous) (zoom target)
          \<and> min (centerX previous) (centerX target) \<le> centerX blended
          \<and> centerX blended \<le> max (centerX previous) (centerX target)
          \<and> min (centerY previous) (centerY target) \<le> centerY blended
          \<and> centerY blended \<le> max (centerY previous) (centerY target))"
  proof
    assume h: "isDouble factor \<and> 0 \<le> factor \<and> factor < 1 \<and>
     finite64 (zoom target - zoom previous) \<noteq> None \<and>
     finite64 (centerX target - centerX previous) \<noteq> None \<and>
     finite64 (centerY target - centerY previous) \<noteq> None"
    then have f: "0 \<le> factor" "factor \<le> 1 - 1 / 2 ^ 53"
      using double_below_one [of factor] by simp_all
    obtain z where z: "blend64 (zoom previous) (zoom target) factor = Some z"
        "min (zoom previous) (zoom target) \<le> z" "z \<le> max (zoom previous) (zoom target)"
      using blend64_within [OF p(1) t(1) f] h by blast
    obtain x where x: "blend64 (centerX previous) (centerX target) factor = Some x"
        "min (centerX previous) (centerX target) \<le> x" "x \<le> max (centerX previous) (centerX target)"
      using blend64_within [OF p(2) t(2) f] h by blast
    obtain y where y: "blend64 (centerY previous) (centerY target) factor = Some y"
        "min (centerY previous) (centerY target) \<le> y" "y \<le> max (centerY previous) (centerY target)"
      using blend64_within [OF p(3) t(3) f] h by blast
    have "interpolateZoomState64 target (Some previous) (Some factor)
            = Some \<lparr>zoom = z, centerX = x, centerY = y\<rparr>"
      unfolding interpolate64_Some_iff using z(1) x(1) y(1) by simp
    then show "\<exists>blended. interpolateZoomState64 target (Some previous) (Some factor) = Some blended
          \<and> min (zoom previous) (zoom target) \<le> zoom blended
          \<and> zoom blended \<le> max (zoom previous) (zoom target)
          \<and> min (centerX previous) (centerX target) \<le> centerX blended
          \<and> centerX blended \<le> max (centerX previous) (centerX target)
          \<and> min (centerY previous) (centerY target) \<le> centerY blended
          \<and> centerY blended \<le> max (centerY previous) (centerY target)"
      using z(2,3) x(2,3) y(2,3)
      by (intro exI [of _ "\<lparr>zoom = z, centerX = x, centerY = y\<rparr>"]) simp
  qed
  show "0 \<le> factor \<and> factor \<le> 1 \<and>
        interpolateZoomState64 target (Some previous) (Some 1) = Some full \<longrightarrow>
       (\<exists>blended. interpolateZoomState64 target (Some previous) (Some factor) = Some blended
          \<and> min (zoom previous) (zoom full) \<le> zoom blended
          \<and> zoom blended \<le> max (zoom previous) (zoom full)
          \<and> min (centerX previous) (centerX full) \<le> centerX blended
          \<and> centerX blended \<le> max (centerX previous) (centerX full)
          \<and> min (centerY previous) (centerY full) \<le> centerY blended
          \<and> centerY blended \<le> max (centerY previous) (centerY full))
       \<and> (zoom previous \<le> zoom target \<longrightarrow> zoom previous \<le> zoom full)
       \<and> (zoom target \<le> zoom previous \<longrightarrow> zoom full \<le> zoom previous)
       \<and> (centerX previous \<le> centerX target \<longrightarrow> centerX previous \<le> centerX full)
       \<and> (centerX target \<le> centerX previous \<longrightarrow> centerX full \<le> centerX previous)
       \<and> (centerY previous \<le> centerY target \<longrightarrow> centerY previous \<le> centerY full)
       \<and> (centerY target \<le> centerY previous \<longrightarrow> centerY full \<le> centerY previous)
       \<and> (isDouble (zoom target - zoom previous) \<longrightarrow> zoom full = zoom target)
       \<and> (isDouble (centerX target - centerX previous) \<longrightarrow> centerX full = centerX target)
       \<and> (isDouble (centerY target - centerY previous) \<longrightarrow> centerY full = centerY target)"
  proof
    assume h: "0 \<le> factor \<and> factor \<le> 1 \<and>
        interpolateZoomState64 target (Some previous) (Some 1) = Some full"
    then have f: "0 \<le> factor" "factor \<le> 1"
      by simp_all
    have fz: "blend64 (zoom previous) (zoom target) 1 = Some (zoom full)"
      and fx: "blend64 (centerX previous) (centerX target) 1 = Some (centerX full)"
      and fy: "blend64 (centerY previous) (centerY target) 1 = Some (centerY full)"
      using h unfolding interpolate64_Some_iff by simp_all
    obtain z where z: "blend64 (zoom previous) (zoom target) factor = Some z"
        "min (zoom previous) (zoom full) \<le> z" "z \<le> max (zoom previous) (zoom full)"
      using blend64_towards(1) [OF p(1) f fz] by blast
    obtain x where x: "blend64 (centerX previous) (centerX target) factor = Some x"
        "min (centerX previous) (centerX full) \<le> x" "x \<le> max (centerX previous) (centerX full)"
      using blend64_towards(1) [OF p(2) f fx] by blast
    obtain y where y: "blend64 (centerY previous) (centerY target) factor = Some y"
        "min (centerY previous) (centerY full) \<le> y" "y \<le> max (centerY previous) (centerY full)"
      using blend64_towards(1) [OF p(3) f fy] by blast
    have "interpolateZoomState64 target (Some previous) (Some factor)
            = Some \<lparr>zoom = z, centerX = x, centerY = y\<rparr>"
      unfolding interpolate64_Some_iff using z(1) x(1) y(1) by simp
    then have first: "\<exists>blended. interpolateZoomState64 target (Some previous) (Some factor) = Some blended
          \<and> min (zoom previous) (zoom full) \<le> zoom blended
          \<and> zoom blended \<le> max (zoom previous) (zoom full)
          \<and> min (centerX previous) (centerX full) \<le> centerX blended
          \<and> centerX blended \<le> max (centerX previous) (centerX full)
          \<and> min (centerY previous) (centerY full) \<le> centerY blended
          \<and> centerY blended \<le> max (centerY previous) (centerY full)"
      using z(2,3) x(2,3) y(2,3)
      by (intro exI [of _ "\<lparr>zoom = z, centerX = x, centerY = y\<rparr>"]) simp
    have side: "zoom previous \<le> zoom target \<longrightarrow> zoom previous \<le> zoom full"
        "zoom target \<le> zoom previous \<longrightarrow> zoom full \<le> zoom previous"
        "centerX previous \<le> centerX target \<longrightarrow> centerX previous \<le> centerX full"
        "centerX target \<le> centerX previous \<longrightarrow> centerX full \<le> centerX previous"
        "centerY previous \<le> centerY target \<longrightarrow> centerY previous \<le> centerY full"
        "centerY target \<le> centerY previous \<longrightarrow> centerY full \<le> centerY previous"
      by (simp_all add: blend64_towards(2,3) [OF p(1) f fz]
            blend64_towards(2,3) [OF p(2) f fx]
            blend64_towards(2,3) [OF p(3) f fy])
    have exact: "isDouble (zoom target - zoom previous) \<longrightarrow> zoom full = zoom target"
        "isDouble (centerX target - centerX previous) \<longrightarrow> centerX full = centerX target"
        "isDouble (centerY target - centerY previous) \<longrightarrow> centerY full = centerY target"
      using fz fx fy t by (auto simp: blend64_factor_1_exact)
    show "(\<exists>blended. interpolateZoomState64 target (Some previous) (Some factor) = Some blended
          \<and> min (zoom previous) (zoom full) \<le> zoom blended
          \<and> zoom blended \<le> max (zoom previous) (zoom full)
          \<and> min (centerX previous) (centerX full) \<le> centerX blended
          \<and> centerX blended \<le> max (centerX previous) (centerX full)
          \<and> min (centerY previous) (centerY full) \<le> centerY blended
          \<and> centerY blended \<le> max (centerY previous) (centerY full))
       \<and> (zoom previous \<le> zoom target \<longrightarrow> zoom previous \<le> zoom full)
       \<and> (zoom target \<le> zoom previous \<longrightarrow> zoom full \<le> zoom previous)
       \<and> (centerX previous \<le> centerX target \<longrightarrow> centerX previous \<le> centerX full)
       \<and> (centerX target \<le> centerX previous \<longrightarrow> centerX full \<le> centerX previous)
       \<and> (centerY previous \<le> centerY target \<longrightarrow> centerY previous \<le> centerY full)
       \<and> (centerY target \<le> centerY previous \<longrightarrow> centerY full \<le> centerY previous)
       \<and> (isDouble (zoom target - zoom previous) \<longrightarrow> zoom full = zoom target)
       \<and> (isDouble (centerX target - centerX previous) \<longrightarrow> centerX full = centerX target)
       \<and> (isDouble (centerY target - centerY previous) \<longrightarrow> centerY full = centerY target)"
      by (intro conjI; fact)
  qed
qed

text \<open>
  With the double of 0.3 as the factor: from the state (1, 0.5, 0.75) towards the target
  (2, 0.25, 0.75) every field stays between the two; from centerX 0.03 towards the
  target centerX 0.3 the result stays between 0.03 and the result for the factor 1.
\<close>

theorem interpolateZoomState64_bounds_witness:
  "(\<exists>blended. interpolateZoomState64 targetQuarter (Some previousHalf)
                (Some (5404319552844595 / 2 ^ 54)) = Some blended
     \<and> 1 \<le> zoom blended \<and> zoom blended \<le> 2
     \<and> 1 / 4 \<le> centerX blended \<and> centerX blended \<le> 1 / 2
     \<and> centerY blended = 3 / 4)
   \<and> (\<exists>blended. interpolateZoomState64 target03 (Some previous003)
                (Some (5404319552844595 / 2 ^ 54)) = Some blended
     \<and> 8646911284551352 / 2 ^ 58 \<le> centerX blended
     \<and> centerX blended \<le> 5404319552844596 / 2 ^ 54)"
proof -
  have s: "doubleState targetQuarter" "doubleState previousHalf"
    using double_examples by (simp_all add: doubleState_def targetQuarter_def previousHalf_def)
  have h: "isDouble (5404319552844595 / 2 ^ 54) \<and> (0::real) \<le> 5404319552844595 / 2 ^ 54 \<and>
      (5404319552844595 / 2 ^ 54 :: real) < 1 \<and>
      finite64 (zoom targetQuarter - zoom previousHalf) \<noteq> None \<and>
      finite64 (centerX targetQuarter - centerX previousHalf) \<noteq> None \<and>
      finite64 (centerY targetQuarter - centerY previousHalf) \<noteq> None"
    using double_examples isDouble_0
    by (simp add: targetQuarter_def previousHalf_def finite64_of_isDouble)
  obtain blended where b:
      "interpolateZoomState64 targetQuarter (Some previousHalf)
         (Some (5404319552844595 / 2 ^ 54)) = Some blended"
      "min (zoom previousHalf) (zoom targetQuarter) \<le> zoom blended"
      "zoom blended \<le> max (zoom previousHalf) (zoom targetQuarter)"
      "min (centerX previousHalf) (centerX targetQuarter) \<le> centerX blended"
      "centerX blended \<le> max (centerX previousHalf) (centerX targetQuarter)"
      "min (centerY previousHalf) (centerY targetQuarter) \<le> centerY blended"
      "centerY blended \<le> max (centerY previousHalf) (centerY targetQuarter)"
    using interpolateZoomState64_bounds [OF s, of "5404319552844595 / 2 ^ 54" previousHalf 0,
        THEN conjunct1, THEN mp, OF h]
    by blast
  have "1 \<le> zoom blended \<and> zoom blended \<le> 2
     \<and> 1 / 4 \<le> centerX blended \<and> centerX blended \<le> 1 / 2
     \<and> centerY blended = 3 / 4"
    using b(2-7) by (simp add: targetQuarter_def previousHalf_def)
  then have first: "\<exists>blended. interpolateZoomState64 targetQuarter (Some previousHalf)
                (Some (5404319552844595 / 2 ^ 54)) = Some blended
     \<and> 1 \<le> zoom blended \<and> zoom blended \<le> 2
     \<and> 1 / 4 \<le> centerX blended \<and> centerX blended \<le> 1 / 2
     \<and> centerY blended = 3 / 4"
    using b(1) by blast
  have g: "(0::real) \<le> 5404319552844595 / 2 ^ 54 \<and> (5404319552844595 / 2 ^ 54 :: real) \<le> 1 \<and>
      interpolateZoomState64 target03 (Some previous003) (Some 1)
        = Some \<lparr>zoom = 1, centerX = 5404319552844596 / 2 ^ 54, centerY = 1 / 2\<rparr>"
    using interpolate_003_03 by simp
  obtain blended' where c:
      "interpolateZoomState64 target03 (Some previous003)
         (Some (5404319552844595 / 2 ^ 54)) = Some blended'"
      "min (centerX previous003)
         (centerX \<lparr>zoom = 1, centerX = 5404319552844596 / 2 ^ 54, centerY = 1 / 2\<rparr>)
         \<le> centerX blended'"
      "centerX blended'
         \<le> max (centerX previous003)
             (centerX \<lparr>zoom = 1, centerX = 5404319552844596 / 2 ^ 54, centerY = 1 / 2\<rparr>)"
    using interpolateZoomState64_bounds [OF doubleState_003_03,
        of "5404319552844595 / 2 ^ 54"
           "\<lparr>zoom = 1, centerX = 5404319552844596 / 2 ^ 54, centerY = 1 / 2\<rparr>" 0,
        THEN conjunct2, THEN conjunct1, THEN mp, OF g, THEN conjunct1]
    by blast
  have "8646911284551352 / 2 ^ 58 \<le> centerX blended'
     \<and> centerX blended' \<le> 5404319552844596 / 2 ^ 54"
    using c(2,3) by (simp add: previous003_def)
  then have second: "\<exists>blended. interpolateZoomState64 target03 (Some previous003)
                (Some (5404319552844595 / 2 ^ 54)) = Some blended
     \<and> 8646911284551352 / 2 ^ 58 \<le> centerX blended
     \<and> centerX blended \<le> 5404319552844596 / 2 ^ 54"
    using c(1) by blast
  show ?thesis
    using first second by blast
qed

text \<open>
  A factor in the interval can carry a field beyond the target: with the factor 1, from
  centerX 0.03 to the target centerX 0.3, the centerX of the result is above both.
\<close>

theorem interpolateZoomState_overshoot_counterexample:
  "doubleState target03 \<and> doubleState previous003 \<and> (0::real) \<le> 1 \<and> (1::real) \<le> 1
   \<and> map_option centerX (interpolateZoomState64 target03 (Some previous003) (Some 1))
       = Some (5404319552844596 / 2 ^ 54)
   \<and> max (centerX previous003) (centerX target03) < 5404319552844596 / 2 ^ 54"
  using doubleState_003_03 interpolate_003_03 by (simp add: target03_def previous003_def)

section \<open>The render tick\<close>

lemma multiply_assoc: "multiply (multiply A B) C = multiply A (multiply B C)"
  by (cases A; cases B; cases C) (simp add: algebra_simps)

lemma multiply_identity_left: "multiply identity A = A"
  by (cases A) (simp add: identity_def)

lemma transformPoint_identity: "transformPoint identity p = p"
  by (cases p) (simp add: identity_def)

lemma zoom_about_point:
  "transformPoint
     (multiply (multiply (translation cx cy) (scaling z z)) (translation (- cx) (- cy))) (x, y)
   = (cx + z * (x - cx), cy + z * (y - cy))"
  by (simp add: translation_def scaling_def algebra_simps)

lemma draw_zoomed:
  "restore (drawImage video 0 0 w h
      ((translate (- cx) (- cy) (scale z z (translate cx cy (save (clearRect 0 0 w h ctx)))))
         \<lparr>imageSmoothingEnabled := True\<rparr>\<lparr>imageSmoothingQuality := ''high''\<rparr>))
   = ctx\<lparr>bitmap := bitmap ctx @
        [Cleared (transform ctx) 0 0 w h,
         Drawn (multiply (transform ctx)
                  (multiply (multiply (translation cx cy) (scaling z z)) (translation (- cx) (- cy))))
           video 0 0 w h]\<rparr>"
  by (cases ctx)
     (simp add: restore_def drawImage_def translate_def scale_def save_def clearRect_def
        DrawingState.truncate_def multiply_assoc)

lemma draw_plain:
  "drawImage video 0 0 w h (clearRect 0 0 w h ctx)
   = ctx\<lparr>bitmap := bitmap ctx @
        [Cleared (transform ctx) 0 0 w h, Drawn (transform ctx) video 0 0 w h]\<rparr>"
  by (simp add: drawImage_def clearRect_def)

lemma renderFrame_composited:
  assumes "videoRef refs = Some video" and "canvasRef refs = Some canvas"
    and "contextRef refs = Some ctx"
    and "calculateZoomParameters zoomEffects (currentTime video) = Some currentParams"
  shows "renderFrame zoomEffects timestamp refs =
    (let smoothedParams =
           interpolateZoomState (ZoomState.truncate currentParams) (prevZoomStateRef refs)
             (Some (if \<bar>currentTime video - lastVideoTimeRef refs\<bar> > 0.1 then 0.8 else 0.3));
         cx = centerX smoothedParams * width canvas;
         cy = centerY smoothedParams * height canvas;
         z = zoom smoothedParams
     in Some (refs\<lparr>lastTimeRef := timestamp,
                    lastVideoTimeRef := currentTime video,
                    prevZoomStateRef := Some smoothedParams,
                    frameCountRef := frameCountRef refs + 1,
                    contextRef := Some (ctx\<lparr>bitmap := bitmap ctx @
                      [Cleared (transform ctx) 0 0 (width canvas) (height canvas),
                       Drawn (if isActive currentParams
                              then multiply (transform ctx)
                                     (multiply (multiply (translation cx cy) (scaling z z))
                                        (translation (- cx) (- cy)))
                              else transform ctx)
                         video 0 0 (width canvas) (height canvas)]\<rparr>)\<rparr>))"
  using assms
  by (simp add: renderFrame_def Let_def draw_zoomed draw_plain)

text \<open>
  Claim C4. A composited tick is a tick on which the video, the canvas and the context
  are present; let the resolver have the value \<open>currentParams\<close> at the video's time. The
  tick then has a result, in which the stored previous state is the result of
  \<open>interpolateZoomState\<close> on the resolved parameters, the previous state of before the
  tick and the factor 0.8 when the absolute difference between the video's time and the
  video time stored by the tick before exceeds 0.1, and the factor 0.3 when it does not;
  and the video's time is stored for the next tick. Nothing is assumed of
  \<open>isActive currentParams\<close>.
\<close>

theorem renderFrame_smoothing:
  assumes "videoRef refs = Some video" and "canvasRef refs = Some canvas"
    and "contextRef refs = Some ctx"
    and "calculateZoomParameters zoomEffects (currentTime video) = Some currentParams"
  shows "\<exists>refs'. renderFrame zoomEffects timestamp refs = Some refs'
     \<and> (\<bar>currentTime video - lastVideoTimeRef refs\<bar> > 0.1 \<longrightarrow>
          prevZoomStateRef refs' =
            Some (interpolateZoomState (ZoomState.truncate currentParams)
                    (prevZoomStateRef refs) (Some 0.8)))
     \<and> (\<not> \<bar>currentTime video - lastVideoTimeRef refs\<bar> > 0.1 \<longrightarrow>
          prevZoomStateRef refs' =
            Some (interpolateZoomState (ZoomState.truncate currentParams)
                    (prevZoomStateRef refs) (Some 0.3)))
     \<and> lastVideoTimeRef refs' = currentTime video"
  unfolding renderFrame_composited [OF assms]
  by (simp add: Let_def)

text \<open>
  Scenario C of the specification, on the effect of scenario A. A tick at video time 3
  after a tick at video time 2.5, a jump of 0.5: from the zoom 1 towards the target 1.5
  the stored zoom is \<open>1 + 0.5 * 0.8 = 1.4\<close>, further than the \<open>1.15\<close> of the factor
  0.3. The next tick at video time 3.01, a step of 0.01: from the zoom 1.4 towards the
  target 1.5148505 the stored zoom is \<open>1.4 + 0.1148505 * 0.3\<close>.
\<close>

theorem renderFrame_smoothing_witness:
  "(\<exists>refs'. renderFrame [effectInOut] 16 refsAfterSeek = Some refs'
      \<and> prevZoomStateRef refs' = Some \<lparr>zoom = 1.4, centerX = 0.5, centerY = 0.5\<rparr>
      \<and> lastVideoTimeRef refs' = 3)
   \<and> (\<exists>refs'. renderFrame [effectInOut] 32 refsPlaying = Some refs'
      \<and> prevZoomStateRef refs' = Some \<lparr>zoom = 1.43445515, centerX = 0.5, centerY = 0.5\<rparr>
      \<and> lastVideoTimeRef refs' = 3.01)"
proof -
  have s: "videoRef refsAfterSeek = Some \<lparr>currentTime = 3\<rparr>"
      "canvasRef refsAfterSeek = Some \<lparr>width = 640, height = 360\<rparr>"
      "contextRef refsAfterSeek = Some freshContext"
    by (simp_all add: refsAfterSeek_def)
  have sp: "calculateZoomParameters [effectInOut] (currentTime \<lparr>currentTime = 3\<rparr>) =
      Some \<lparr>zoom = 1.5, centerX = 0.5, centerY = 0.5, isActive = True\<rparr>"
    by (simp add: calculateZoomParameters_def activeEffect_def divide_number_def
          easeInOutCubic_def effectInOut_def)
  have jump: "\<bar>currentTime \<lparr>currentTime = 3\<rparr> - lastVideoTimeRef refsAfterSeek\<bar> > 0.1"
    by (simp add: refsAfterSeek_def)
  have first: "\<exists>refs'. renderFrame [effectInOut] 16 refsAfterSeek = Some refs'
      \<and> prevZoomStateRef refs' = Some \<lparr>zoom = 1.4, centerX = 0.5, centerY = 0.5\<rparr>
      \<and> lastVideoTimeRef refs' = 3"
    using renderFrame_smoothing [OF s sp, of 16] jump
    by (auto simp: refsAfterSeek_def interpolateZoomState_def ZoomState.truncate_def)
  have p: "videoRef refsPlaying = Some \<lparr>currentTime = 3.01\<rparr>"
      "canvasRef refsPlaying = Some \<lparr>width = 640, height = 360\<rparr>"
      "contextRef refsPlaying = Some freshContext"
    by (simp_all add: refsPlaying_def)
  have pp: "calculateZoomParameters [effectInOut] (currentTime \<lparr>currentTime = 3.01\<rparr>) =
      Some \<lparr>zoom = 1.5148505, centerX = 0.5, centerY = 0.5, isActive = True\<rparr>"
    by (simp add: calculateZoomParameters_def activeEffect_def divide_number_def
          easeInOutCubic_def effectInOut_def power3_eq_cube)
  have step: "\<not> \<bar>currentTime \<lparr>currentTime = 3.01\<rparr> - lastVideoTimeRef refsPlaying\<bar> > 0.1"
    by (simp add: refsPlaying_def)
  have second: "\<exists>refs'. renderFrame [effectInOut] 32 refsPlaying = Some refs'
      \<and> prevZoomStateRef refs' = Some \<lparr>zoom = 1.43445515, centerX = 0.5, centerY = 0.5\<rparr>
      \<and> lastVideoTimeRef refs' = 3.01"
    using renderFrame_smoothing [OF p pp, of 32] step
    by (auto simp: refsPlaying_def interpolateZoomState_def ZoomState.truncate_def)
  show ?thesis
    using first second by blast
qed

text \<open>
  Claim C8. On a composited tick with resolved parameters \<open>currentParams\<close>, let
  \<open>smoothedParams\<close> be the state the tick stores, \<open>cx\<close> and \<open>cy\<close> its centre times the
  width and the height of the canvas, and \<open>z\<close> its zoom. The tick adds two actions to the
  bitmap, in this order: the clearing of the rectangle of the canvas, then the drawing of
  the video frame over that rectangle. When \<open>isActive currentParams\<close> holds the frame is
  drawn through the matrix of the context times
  \<open>translation cx cy \<cdot> scaling z z \<cdot> translation (- cx) (- cy)\<close>, which maps a point \<open>(x, y)\<close>
  to \<open>(cx + z (x - cx), cy + z (y - cy))\<close>; when it does not hold the frame is drawn through
  the matrix of the context as it is, whatever the smoothed state. The tick leaves the
  matrix and the stack of the context as they were, so that a context that starts with the
  identity has the identity at every tick: then the frame is drawn through the product of
  the three matrices alone, or through the identity.
\<close>

theorem renderFrame_draws:
  assumes "videoRef refs = Some video" and "canvasRef refs = Some canvas"
    and "contextRef refs = Some ctx"
    and "calculateZoomParameters zoomEffects (currentTime video) = Some currentParams"
  shows "\<exists>refs' ctx' smoothedParams.
       renderFrame zoomEffects timestamp refs = Some refs'
     \<and> contextRef refs' = Some ctx'
     \<and> prevZoomStateRef refs' = Some smoothedParams
     \<and> (let cx = centerX smoothedParams * width canvas;
             cy = centerY smoothedParams * height canvas;
             z = zoom smoothedParams;
             zoomTransform =
               multiply (multiply (translation cx cy) (scaling z z)) (translation (- cx) (- cy))
         in bitmap ctx' = bitmap ctx @
              [Cleared (transform ctx) 0 0 (width canvas) (height canvas),
               Drawn (if isActive currentParams then multiply (transform ctx) zoomTransform
                      else transform ctx)
                 video 0 0 (width canvas) (height canvas)]
          \<and> (transform ctx = identity \<longrightarrow>
               bitmap ctx' = bitmap ctx @
                 [Cleared identity 0 0 (width canvas) (height canvas),
                  Drawn (if isActive currentParams then zoomTransform else identity)
                    video 0 0 (width canvas) (height canvas)])
          \<and> (\<forall>x y. transformPoint zoomTransform (x, y) = (cx + z * (x - cx), cy + z * (y - cy)))
          \<and> transformPoint identity = (\<lambda>p. p)
          \<and> transform ctx' = transform ctx
          \<and> stack ctx' = stack ctx)"
  unfolding renderFrame_composited [OF assms]
  by (simp add: Let_def zoom_about_point multiply_identity_left transformPoint_identity
        fun_eq_iff del: transformPoint.simps multiply.simps)

text \<open>
  The tick after the seek, with the effect of scenario A active at video time 3: the frame
  is drawn zoomed by 1.4 about the centre (320, 180) of the 640 by 360 canvas. A tick
  with no effects, whose smoothed zoom 1.28 is still on its way down from 1.4: the frame
  is drawn through the identity.
\<close>

theorem renderFrame_draws_witness:
  "(\<exists>refs' ctx'. renderFrame [effectInOut] 16 refsAfterSeek = Some refs'
      \<and> contextRef refs' = Some ctx'
      \<and> bitmap ctx' =
          [Cleared identity 0 0 640 360,
           Drawn (multiply (multiply (translation 320 180) (scaling 1.4 1.4))
                    (translation (- 320) (- 180)))
             \<lparr>currentTime = 3\<rparr> 0 0 640 360]
      \<and> transformPoint (multiply (multiply (translation 320 180) (scaling 1.4 1.4))
                    (translation (- 320) (- 180))) (0, 0) = (- 128, - 72)
      \<and> transform ctx' = identity \<and> stack ctx' = [])
   \<and> (\<exists>refs' ctx'. renderFrame [] 32 refsPlaying = Some refs'
      \<and> contextRef refs' = Some ctx'
      \<and> prevZoomStateRef refs' = Some \<lparr>zoom = 1.28, centerX = 0.5, centerY = 0.5\<rparr>
      \<and> bitmap ctx' =
          [Cleared identity 0 0 640 360, Drawn identity \<lparr>currentTime = 3.01\<rparr> 0 0 640 360])"
proof -
  have s: "videoRef refsAfterSeek = Some \<lparr>currentTime = 3\<rparr>"
      "canvasRef refsAfterSeek = Some \<lparr>width = 640, height = 360\<rparr>"
      "contextRef refsAfterSeek = Some freshContext"
    by (simp_all add: refsAfterSeek_def)
  have sp: "calculateZoomParameters [effectInOut] (currentTime \<lparr>currentTime = 3\<rparr>) =
      Some \<lparr>zoom = 1.5, centerX = 0.5, centerY = 0.5, isActive = True\<rparr>"
    by (simp add: calculateZoomParameters_def activeEffect_def divide_number_def
          easeInOutCubic_def effectInOut_def)
  have sv: "map_option prevZoomStateRef (renderFrame [effectInOut] 16 refsAfterSeek) =
      Some (Some \<lparr>zoom = 1.4, centerX = 0.5, centerY = 0.5\<rparr>)"
    unfolding renderFrame_composited [OF s sp]
    by (simp add: Let_def refsAfterSeek_def interpolateZoomState_def ZoomState.truncate_def)
  have active: "\<exists>refs' ctx'. renderFrame [effectInOut] 16 refsAfterSeek = Some refs'
      \<and> contextRef refs' = Some ctx'
      \<and> bitmap ctx' =
          [Cleared identity 0 0 640 360,
           Drawn (multiply (multiply (translation 320 180) (scaling 1.4 1.4))
                    (translation (- 320) (- 180)))
             \<lparr>currentTime = 3\<rparr> 0 0 640 360]
      \<and> transformPoint (multiply (multiply (translation 320 180) (scaling 1.4 1.4))
                    (translation (- 320) (- 180))) (0, 0) = (- 128, - 72)
      \<and> transform ctx' = identity \<and> stack ctx' = []"
    using renderFrame_draws [OF s sp, of 16] sv
    by (auto simp: Let_def freshContext_def simp del: transformPoint.simps multiply.simps)
  have p: "videoRef refsPlaying = Some \<lparr>currentTime = 3.01\<rparr>"
      "canvasRef refsPlaying = Some \<lparr>width = 640, height = 360\<rparr>"
      "contextRef refsPlaying = Some freshContext"
    by (simp_all add: refsPlaying_def)
  have pp: "calculateZoomParameters [] (currentTime \<lparr>currentTime = 3.01\<rparr>) =
      Some \<lparr>zoom = 1, centerX = 0.5, centerY = 0.5, isActive = False\<rparr>"
    by (simp add: calculateZoomParameters_def activeEffect_def)
  have pv: "map_option prevZoomStateRef (renderFrame [] 32 refsPlaying) =
      Some (Some \<lparr>zoom = 1.28, centerX = 0.5, centerY = 0.5\<rparr>)"
    unfolding renderFrame_composited [OF p pp]
    by (simp add: Let_def refsPlaying_def interpolateZoomState_def ZoomState.truncate_def)
  have inactive: "\<exists>refs' ctx'. renderFrame [] 32 refsPlaying = Some refs'
      \<and> contextRef refs' = Some ctx'
      \<and> prevZoomStateRef refs' = Some \<lparr>zoom = 1.28, centerX = 0.5, centerY = 0.5\<rparr>
      \<and> bitmap ctx' =
          [Cleared identity 0 0 640 360, Drawn identity \<lparr>currentTime = 3.01\<rparr> 0 0 640 360]"
    using renderFrame_draws [OF p pp, of 32] pv
    by (auto simp: Let_def freshContext_def simp del: transformPoint.simps multiply.simps)
  show ?thesis
    using active inactive by blast
qed

end

